theory Spec2Isabelle
  imports Main "HOL-Library.Word"
begin

section \<open>Slicing utilities of snorkel: data model\<close>

text \<open>
  The development embeds \<^verbatim>\<open>src/snorkel/slicing/utils.py\<close>: the functions
  \<^verbatim>\<open>add_slice_labels\<close>, \<^verbatim>\<open>convert_to_slice_tasks\<close> and
  \<^verbatim>\<open>_add_base_slice\<close>.

  Python objects that the code shares or mutates live in an explicit heap and are named
  by references (indices into the heap's tables): the lists of slice names, the
  \<^verbatim>\<open>nn.Module\<close> objects and the \<^verbatim>\<open>nn.ModuleDict\<close> module pools. An
  allocation appends to its table, so the new reference is the table's old length. The
  label dictionary \<^verbatim>\<open>dataloader.dataset.Y_dict\<close> is one more component of the heap.
\<close>

type_synonym ref = nat

text \<open>Tensor and array elements are 64-bit integers (\<^verbatim>\<open>torch.LongTensor\<close>,
  \<^verbatim>\<open>dtype=int\<close>); multiplication wraps around.\<close>

type_synonym int64 = "64 word"

text \<open>A one-dimensional tensor: one value per example.\<close>

type_synonym tensor = "int64 list"

text \<open>The exceptions the embedded code can raise.\<close>

datatype error = AssertionError | KeyError | IndexError | AttributeError | RuntimeError

text \<open>A dense two-dimensional array: its shape and its cells, read as
  \<^verbatim>\<open>a[e, j]\<close> for \<open>e < shape0\<close> and \<open>j < shape1\<close>.\<close>

record ndarray =
  shape0 :: nat
  shape1 :: nat
  cell :: "nat \<Rightarrow> nat \<Rightarrow> int64"

text \<open>The modules the code tells apart: a linear layer with its two dimensions, the
  replication wrapper \<^verbatim>\<open>nn.DataParallel\<close> holding a reference to the module it
  wraps, the slice combiner, and any other module (which has neither
  \<^verbatim>\<open>in_features\<close> nor \<^verbatim>\<open>out_features\<close>).\<close>

datatype nn_module =
    Linear (in_features: nat) (out_features: nat)
  | DataParallel (wrapped: ref)
  | SliceCombinerModule
  | OtherModule

text \<open>Modelled from the spec: the classes \<^verbatim>\<open>Operation\<close>, \<^verbatim>\<open>Task\<close> and
  \<^verbatim>\<open>Scorer\<close> are imported by the source and not part of it. An input reference is an
  external input key or the pair of an operation name and an output index; an operation
  is a named node with a module name and its input references, named after its module
  when no name is given; a task is a name, a module pool held by reference, a task flow
  and a scorer configuration; a scorer configuration is a list of metric names.\<close>

datatype input_ref = InputKey string | OpOutput string nat

record operation =
  op_name :: string
  op_module_name :: string
  inputs :: "input_ref list"

datatype scorer_config = Scorer (metrics: "string list")

record task =
  name :: string
  module_pool :: ref
  task_flow :: "operation list"
  scorer :: scorer_config

definition Operation :: "string \<Rightarrow> input_ref list \<Rightarrow> operation" where
  "Operation mn ins = \<lparr>op_name = mn, op_module_name = mn, inputs = ins\<rparr>"

definition Task :: "string \<Rightarrow> ref \<Rightarrow> operation list \<Rightarrow> scorer_config \<Rightarrow> task" where
  "Task n p f s = \<lparr>name = n, module_pool = p, task_flow = f, scorer = s\<rparr>"

text \<open>The heap. \<open>lists\<close> holds the Python list objects of slice names, \<open>modules\<close> the
  module objects, \<open>pools\<close> the \<^verbatim>\<open>nn.ModuleDict\<close> objects (a module pool maps module
  names to module references; the key checks that torch makes on insertion are outside
  the source and not modelled), \<open>Y_dict\<close> the label store of the data loader.\<close>

record heap =
  lists :: "string list list"
  modules :: "nn_module list"
  pools :: "(string \<rightharpoonup> ref) list"
  Y_dict :: "string \<rightharpoonup> tensor"

definition alloc_list :: "heap \<Rightarrow> string list \<Rightarrow> heap \<times> ref" where
  "alloc_list h xs = (h\<lparr>lists := lists h @ [xs]\<rparr>, length (lists h))"

definition alloc_module :: "heap \<Rightarrow> nn_module \<Rightarrow> heap \<times> ref" where
  "alloc_module h m = (h\<lparr>modules := modules h @ [m]\<rparr>, length (modules h))"

definition alloc_pool :: "heap \<Rightarrow> (string \<rightharpoonup> ref) \<Rightarrow> heap \<times> ref" where
  "alloc_pool h p = (h\<lparr>pools := pools h @ [p]\<rparr>, length (pools h))"

text \<open>\<^verbatim>\<open>pool[k] = m\<close> and \<^verbatim>\<open>del pool[k]\<close> on the pool object at reference \<open>p\<close>.\<close>

definition pool_set :: "heap \<Rightarrow> ref \<Rightarrow> string \<Rightarrow> ref \<Rightarrow> heap" where
  "pool_set h p k m = h\<lparr>pools := (pools h)[p := (pools h ! p)(k \<mapsto> m)]\<rparr>"

definition pool_del :: "heap \<Rightarrow> ref \<Rightarrow> string \<Rightarrow> heap" where
  "pool_del h p k = h\<lparr>pools := (pools h)[p := (pools h ! p)(k := None)]\<rparr>"

section \<open>Base-slice normalization\<close>

text \<open>\<^verbatim>\<open>np.ones((num_points, 1), dtype=int)\<close> and \<^verbatim>\<open>np.hstack([a, b])\<close> for two
  arrays with the same number of rows.\<close>

definition ones :: "nat \<Rightarrow> nat \<Rightarrow> ndarray" where
  "ones n k = \<lparr>shape0 = n, shape1 = k, cell = (\<lambda>e j. 1)\<rparr>"

definition hstack :: "ndarray \<Rightarrow> ndarray \<Rightarrow> ndarray" where
  "hstack a b = \<lparr>shape0 = shape0 a, shape1 = shape1 a + shape1 b,
     cell = (\<lambda>e j. if j < shape1 a then cell a e j else cell b e (j - shape1 a))\<rparr>"

text \<open>\<^verbatim>\<open>_add_base_slice(slice_labels, slice_names)\<close>. The array is a value (the code
  builds new arrays and never writes into one); the names are a list object, given by
  reference. \<^verbatim>\<open>slice_names + ["base"]\<close> allocates a new list and the local variable is
  rebound to it.\<close>

definition add_base_slice :: "heap \<Rightarrow> ndarray \<Rightarrow> ref \<Rightarrow> heap \<times> ndarray \<times> ref" where
  "add_base_slice h slice_labels slice_names =
     (if ''base'' \<notin> set (lists h ! slice_names) then
        let num_points = shape0 slice_labels;
            base_labels = ones num_points 1;
            slice_labels' = hstack slice_labels base_labels;
            (h', slice_names') = alloc_list h (lists h ! slice_names @ [''base''])
        in (h', slice_labels', slice_names')
      else (h, slice_labels, slice_names))"

text \<open>The normalized array and the normalized list of names, read off the result.\<close>

definition norm_labels :: "heap \<Rightarrow> ndarray \<Rightarrow> ref \<Rightarrow> ndarray" where
  "norm_labels h slice_labels slice_names =
     fst (snd (add_base_slice h slice_labels slice_names))"

definition norm_names :: "heap \<Rightarrow> ndarray \<Rightarrow> ref \<Rightarrow> string list" where
  "norm_names h slice_labels slice_names =
     (case add_base_slice h slice_labels slice_names of
        (h', slice_labels', slice_names') \<Rightarrow> lists h' ! slice_names')"

section \<open>The Label Materializer\<close>

text \<open>The task names \<^verbatim>\<open>f"{base_task.name}_slice:{slice_name}_ind"\<close> and
  \<^verbatim>\<open>f"{base_task.name}_slice:{slice_name}_pred"\<close>; they are the keys of the label
  store and the names of the slice tasks.\<close>

definition ind_name :: "string \<Rightarrow> string \<Rightarrow> string" where
  "ind_name base_name slice_name = base_name @ ''_slice:'' @ slice_name @ ''_ind''"

definition pred_name :: "string \<Rightarrow> string \<Rightarrow> string" where
  "pred_name base_name slice_name = base_name @ ''_slice:'' @ slice_name @ ''_pred''"

text \<open>\<^verbatim>\<open>torch.LongTensor(slice_labels[:, i])\<close>: column \<open>i\<close> as a tensor.\<close>

definition column :: "ndarray \<Rightarrow> nat \<Rightarrow> tensor" where
  "column a i = map (\<lambda>e. cell a e i) [0..<shape0 a]"

text \<open>\<^verbatim>\<open>indicators * labels\<close> on one-dimensional tensors, with torch's broadcasting:
  equal lengths multiply elementwise, a tensor of length one is broadcast, any other
  pair of lengths raises.\<close>

definition tensor_mul :: "tensor \<Rightarrow> tensor \<Rightarrow> error + tensor" where
  "tensor_mul xs ys =
     (if length xs = length ys then Inr (map (\<lambda>(x, y). x * y) (zip xs ys))
      else if length ys = 1 then Inr (map (\<lambda>x. x * hd ys) xs)
      else if length xs = 1 then Inr (map (\<lambda>y. hd xs * y) ys)
      else Inl RuntimeError)"

text \<open>The loop of \<^verbatim>\<open>add_slice_labels\<close> over \<^verbatim>\<open>enumerate(slice_names)\<close>, on the
  label store. \<^verbatim>\<open>convert_labels\<close> is imported by the source and not part of it: the
  conversion of the indicators (from one/zero to categorical) is the parameter \<open>conv\<close>.
  An exception leaves the store as the iterations before it wrote it.\<close>

fun slice_loop ::
  "(tensor \<Rightarrow> tensor) \<Rightarrow> string \<Rightarrow> ndarray \<Rightarrow> tensor \<Rightarrow> (nat \<times> string) list \<Rightarrow>
   (string \<rightharpoonup> tensor) \<Rightarrow> error option \<times> (string \<rightharpoonup> tensor)" where
  "slice_loop conv base_name slice_labels labels [] Y = (None, Y)"
| "slice_loop conv base_name slice_labels labels ((i, slice_name) # rest) Y =
     (let indicators = column slice_labels i;
          ind_labels = conv indicators
      in case tensor_mul indicators labels of
           Inl e \<Rightarrow> (Some e, Y)
         | Inr pred_labels \<Rightarrow>
             slice_loop conv base_name slice_labels labels rest
               (Y(ind_name base_name slice_name \<mapsto> ind_labels,
                  pred_name base_name slice_name \<mapsto> pred_labels)))"

text \<open>\<^verbatim>\<open>add_slice_labels(dataloader, base_task, slice_labels, slice_names)\<close>: the
  exception raised, if any, and the heap the call leaves. \<^verbatim>\<open>toarray()\<close> makes the
  sparse matrix dense and is the identity here.\<close>

definition add_slice_labels ::
  "(tensor \<Rightarrow> tensor) \<Rightarrow> heap \<Rightarrow> task \<Rightarrow> ndarray \<Rightarrow> ref \<Rightarrow> error option \<times> heap" where
  "add_slice_labels conv h base_task slice_labels0 slice_names0 =
     (case add_base_slice h slice_labels0 slice_names0 of
        (h1, slice_labels, slice_names) \<Rightarrow>
          if shape1 slice_labels \<noteq> length (lists h1 ! slice_names) then (Some AssertionError, h1)
          else case Y_dict h1 (name base_task) of
                 None \<Rightarrow> (Some KeyError, h1)
               | Some labels \<Rightarrow>
                   (case slice_loop conv (name base_task) slice_labels labels
                           (enumerate 0 (lists h1 ! slice_names)) (Y_dict h1) of
                      (e, Y) \<Rightarrow> (e, h1\<lparr>Y_dict := Y\<rparr>)))"

section \<open>The Task Graph Expander\<close>

text \<open>The scorer of every indicator task, \<^verbatim>\<open>Scorer(metrics=["f1"])\<close>.\<close>

definition f1_scorer :: scorer_config where
  "f1_scorer = Scorer [''f1'']"

text \<open>The first loop of \<^verbatim>\<open>convert_to_slice_tasks\<close>: one indicator task per slice
  name. The state is the heap with the two lists the code appends to,
  \<^verbatim>\<open>slice_tasks\<close> and \<^verbatim>\<open>slice_task_ops\<close>.\<close>

fun ind_loop ::
  "task \<Rightarrow> operation \<Rightarrow> nat \<Rightarrow> operation list \<Rightarrow> string list \<Rightarrow>
   heap \<times> task list \<times> operation list \<Rightarrow> heap \<times> task list \<times> operation list" where
  "ind_loop base_task head_module_op neck_size body_flow [] st = st"
| "ind_loop base_task head_module_op neck_size body_flow (slice_name # rest)
     (h, slice_tasks, slice_task_ops) =
     (let ind_task_name = ind_name (name base_task) slice_name;
          ind_head_module_name = ind_task_name @ ''_head'';
          (h1, ind_head_module) = alloc_module h (Linear neck_size 2);
          ind_module_pool = module_pool base_task;
          h2 = pool_set h1 ind_module_pool ind_head_module_name ind_head_module;
          ind_head_op = Operation ind_head_module_name (inputs head_module_op);
          ind_task_ops = [ind_head_op];
          ind_task_flow = body_flow @ ind_task_ops;
          ind_task = Task ind_task_name ind_module_pool ind_task_flow f1_scorer
      in ind_loop base_task head_module_op neck_size body_flow rest
           (h2, slice_tasks @ [ind_task], slice_task_ops @ ind_task_ops))"

text \<open>The second loop: one predictor task per slice name, each with a transform
  module of its own and the head module \<open>shared_pred_head_module\<close>.\<close>

fun pred_loop ::
  "task \<Rightarrow> operation \<Rightarrow> nat \<Rightarrow> operation list \<Rightarrow> ref \<Rightarrow> string list \<Rightarrow>
   heap \<times> task list \<times> operation list \<Rightarrow> heap \<times> task list \<times> operation list" where
  "pred_loop base_task head_module_op neck_size body_flow shared_pred_head_module [] st = st"
| "pred_loop base_task head_module_op neck_size body_flow shared_pred_head_module
     (slice_name # rest) (h, slice_tasks, slice_task_ops) =
     (let pred_task_name = pred_name (name base_task) slice_name;
          pred_head_module_name = pred_task_name @ ''_head'';
          pred_transform_module_name = pred_task_name @ ''_transform'';
          (h1, pred_transform_module) = alloc_module h (Linear neck_size neck_size);
          pred_module_pool = module_pool base_task;
          h2 = pool_set h1 pred_module_pool pred_transform_module_name pred_transform_module;
          h3 = pool_set h2 pred_module_pool pred_head_module_name shared_pred_head_module;
          pred_transform_op = Operation pred_transform_module_name (inputs head_module_op);
          pred_head_op = Operation pred_head_module_name [OpOutput (op_name pred_transform_op) 0];
          pred_task_ops = [pred_transform_op, pred_head_op];
          pred_task_flow = body_flow @ pred_task_ops;
          pred_task = Task pred_task_name pred_module_pool pred_task_flow (scorer base_task)
      in pred_loop base_task head_module_op neck_size body_flow shared_pred_head_module rest
           (h3, slice_tasks @ [pred_task], slice_task_ops @ pred_task_ops))"

text \<open>The master task, built after the two loops from the head module found at the
  start and all the operations collected in \<^verbatim>\<open>slice_task_ops\<close>.\<close>

definition master_step ::
  "task \<Rightarrow> ref \<Rightarrow> operation list \<Rightarrow> heap \<times> task list \<times> operation list \<Rightarrow> task list \<times> heap" where
  "master_step base_task head_module body_flow st =
     (case st of (h, slice_tasks, slice_task_ops) \<Rightarrow>
        let master_task_name = name base_task;
            master_combiner_module_name = name base_task @ ''_master_combiner'';
            (h1, master_combiner_module) = alloc_module h SliceCombinerModule;
            master_head_module_name = name base_task @ ''_master_head'';
            master_head_module = head_module;
            (h2, master_module_pool) =
               alloc_pool h1 (Map.empty(master_combiner_module_name \<mapsto> master_combiner_module,
                                        master_head_module_name \<mapsto> master_head_module));
            master_combiner_op = Operation master_combiner_module_name [];
            master_head_op =
               Operation master_head_module_name [OpOutput (op_name master_combiner_op) 0];
            master_task_flow = body_flow @ slice_task_ops @ [master_combiner_op, master_head_op];
            master_task = Task master_task_name master_module_pool master_task_flow (scorer base_task)
        in (slice_tasks @ [master_task], h2))"

text \<open>The \<^verbatim>\<open>isinstance(head_module, nn.DataParallel)\<close> test with
  \<^verbatim>\<open>head_module = head_module.module\<close>: a replication wrapper is unwrapped once, and
  the variable \<^verbatim>\<open>head_module\<close> names the wrapped module from then on.\<close>

definition unwrap :: "heap \<Rightarrow> ref \<Rightarrow> ref" where
  "unwrap h head_module = (case modules h ! head_module of DataParallel m \<Rightarrow> m | _ \<Rightarrow> head_module)"

text \<open>\<^verbatim>\<open>convert_to_slice_tasks(base_task, slice_names)\<close>: the list of tasks or the
  exception, and the heap the call leaves. \<^verbatim>\<open>task_flow[-1]\<close> raises on an empty flow,
  the lookup of the head module raises when the pool has no such name, and
  \<^verbatim>\<open>in_features\<close> and \<^verbatim>\<open>out_features\<close> exist on linear modules only.\<close>

definition convert_to_slice_tasks :: "heap \<Rightarrow> task \<Rightarrow> ref \<Rightarrow> (error + task list) \<times> heap" where
  "convert_to_slice_tasks h0 base_task slice_names0 =
     (let (h1, slice_names) =
            (if ''base'' \<notin> set (lists h0 ! slice_names0)
             then alloc_list h0 (lists h0 ! slice_names0 @ [''base''])
             else (h0, slice_names0))
      in if task_flow base_task = [] then (Inl IndexError, h1)
         else
           let head_module_op = last (task_flow base_task) in
           case (pools h1 ! module_pool base_task) (op_module_name head_module_op) of
             None \<Rightarrow> (Inl KeyError, h1)
           | Some head_module0 \<Rightarrow>
               let head_module = unwrap h1 head_module0
               in case modules h1 ! head_module of
                    Linear neck_size base_task_cardinality \<Rightarrow>
                      let h2 = pool_del h1 (module_pool base_task) (op_module_name head_module_op);
                          body_flow = butlast (task_flow base_task);
                          st1 = ind_loop base_task head_module_op neck_size body_flow
                                  (lists h2 ! slice_names) (h2, [], []);
                          (h3, shared_pred_head_module) =
                             alloc_module (fst st1) (Linear neck_size base_task_cardinality);
                          st2 = pred_loop base_task head_module_op neck_size body_flow
                                  shared_pred_head_module (lists h3 ! slice_names) (h3, snd st1);
                          (tasks, h4) = master_step base_task head_module body_flow st2
                      in (Inr tasks, h4)
                  | _ \<Rightarrow> (Inl AttributeError, h1))"

text \<open>The names the Expander iterates over: the caller's list, with \<^verbatim>\<open>"base"\<close>
  appended when absent.\<close>

definition expander_names :: "heap \<Rightarrow> ref \<Rightarrow> string list" where
  "expander_names h slice_names0 =
     (if ''base'' \<notin> set (lists h ! slice_names0) then lists h ! slice_names0 @ [''base'']
      else lists h ! slice_names0)"

section \<open>Example inputs\<close>

text \<open>The scenario of the specification: a base task \<^verbatim>\<open>task\<close> with a flow of two
  operations (a body and a head of dimensions 8 and 3), one slice \<^verbatim>\<open>rare\<close>, the
  membership matrix \<^verbatim>\<open>[[1],[0],[1]]\<close> and the base labels \<^verbatim>\<open>[1,2,1]\<close>. The
  second matrix has one column too many; the second heap holds the same head inside a
  replication wrapper; \<open>ex_conv\<close> is a conversion of indicators (1 for members, 2 for
  the others).\<close>

definition ex_matrix :: ndarray where
  "ex_matrix = \<lparr>shape0 = 3, shape1 = 1, cell = (\<lambda>e j. if e = 1 then 0 else 1)\<rparr>"

definition ex_matrix_wide :: ndarray where
  "ex_matrix_wide = \<lparr>shape0 = 3, shape1 = 2, cell = (\<lambda>e j. if e = 1 then 0 else 1)\<rparr>"

definition ex_heap :: heap where
  "ex_heap = \<lparr>lists = [[''rare'']],
              modules = [OtherModule, Linear 8 3],
              pools = [Map.empty(''body'' \<mapsto> 0, ''head'' \<mapsto> 1)],
              Y_dict = Map.empty(''task'' \<mapsto> [1, 2, 1])\<rparr>"

definition ex_heap_wrapped :: heap where
  "ex_heap_wrapped = \<lparr>lists = [[''rare'']],
              modules = [OtherModule, Linear 8 3, DataParallel 1],
              pools = [Map.empty(''body'' \<mapsto> 0, ''head'' \<mapsto> 2)],
              Y_dict = Map.empty(''task'' \<mapsto> [1, 2, 1])\<rparr>"

definition ex_task :: task where
  "ex_task = Task ''task'' 0
     [Operation ''body'' [InputKey ''data''], Operation ''head'' [OpOutput ''body'' 0]]
     (Scorer [''accuracy''])"

definition ex_conv :: "tensor \<Rightarrow> tensor" where
  "ex_conv t = map (\<lambda>x. if x = 0 then 2 else 1) t"

section \<open>Auxiliary facts: task names and base-slice normalization\<close>

text \<open>The two naming schemes are injective in the slice name, never produce the same
  key, and never produce the name of the base task itself.\<close>

lemma ind_name_inj [simp]: "ind_name b s = ind_name b s' \<longleftrightarrow> s = s'"
  by (simp add: ind_name_def)

lemma pred_name_inj [simp]: "pred_name b s = pred_name b s' \<longleftrightarrow> s = s'"
  by (simp add: pred_name_def)

lemma ind_name_neq_pred_name [simp]: "ind_name b s \<noteq> pred_name b s'"
proof
  assume "ind_name b s = pred_name b s'"
  then have "s @ ''_ind'' = s' @ ''_pred''" by (simp add: ind_name_def pred_name_def)
  then have "rev (s @ ''_ind'') = rev (s' @ ''_pred'')" by (rule arg_cong)
  then show False by simp
qed

lemma pred_name_neq_ind_name [simp]: "pred_name b s' \<noteq> ind_name b s"
  using ind_name_neq_pred_name [of b s s'] by (rule not_sym)

lemma base_neq_ind_name [simp]: "b \<noteq> ind_name b s" "ind_name b s \<noteq> b"
  by (simp_all add: ind_name_def)

lemma base_neq_pred_name [simp]: "b \<noteq> pred_name b s" "pred_name b s \<noteq> b"
  by (simp_all add: pred_name_def)

lemma count_list_distinct: "distinct xs \<Longrightarrow> x \<in> set xs \<Longrightarrow> count_list xs x = 1"
  by (induction xs) auto

text \<open>What \<^verbatim>\<open>_add_base_slice\<close> returns, component by component.\<close>

lemma norm_names_eq:
  "norm_names h m r = (if ''base'' \<in> set (lists h ! r) then lists h ! r else lists h ! r @ [''base''])"
  by (simp add: norm_names_def add_base_slice_def alloc_list_def Let_def)

lemma norm_labels_shape1:
  "shape1 (norm_labels h m r) = shape1 m + (if ''base'' \<in> set (lists h ! r) then 0 else 1)"
  by (simp add: norm_labels_def add_base_slice_def alloc_list_def Let_def hstack_def ones_def)

lemma norm_labels_shape0: "shape0 (norm_labels h m r) = shape0 m"
  by (simp add: norm_labels_def add_base_slice_def alloc_list_def Let_def hstack_def ones_def)

lemma norm_labels_cell:
  "cell (norm_labels h m r) e j =
     (if ''base'' \<in> set (lists h ! r) \<or> j < shape1 m then cell m e j else 1)"
  by (simp add: norm_labels_def add_base_slice_def alloc_list_def Let_def hstack_def ones_def)

lemma count_list_append_base:
  "count_list (xs @ (if ''base'' \<in> set xs then [] else [''base''])) ''base'' =
     (if ''base'' \<in> set xs then count_list xs ''base'' else 1)"
  by (simp add: count_list_0_iff)

lemma norm_names_distinct: "distinct (lists h ! r) \<Longrightarrow> distinct (norm_names h m r)"
  by (simp add: norm_names_eq)

lemma norm_shapes_agree:
  "shape1 (norm_labels h m r) = length (norm_names h m r) \<longleftrightarrow> shape1 m = length (lists h ! r)"
  by (simp add: norm_names_eq norm_labels_shape1)

lemma add_base_slice_eq:
  "add_base_slice h m r =
     (fst (add_base_slice h m r), norm_labels h m r, snd (snd (add_base_slice h m r)))"
  by (simp add: norm_labels_def add_base_slice_def alloc_list_def Let_def)

lemma add_base_slice_heap:
  "Y_dict (fst (add_base_slice h m r)) = Y_dict h"
  "modules (fst (add_base_slice h m r)) = modules h"
  "pools (fst (add_base_slice h m r)) = pools h"
  "take (length (lists h)) (lists (fst (add_base_slice h m r))) = lists h"
  by (simp_all add: add_base_slice_def alloc_list_def Let_def)

lemma add_base_slice_names:
  "lists (fst (add_base_slice h m r)) ! snd (snd (add_base_slice h m r)) = norm_names h m r"
  by (simp add: norm_names_def add_base_slice_def alloc_list_def Let_def)

section \<open>Auxiliary facts: the loop of the Label Materializer\<close>

lemma length_column [simp]: "length (column a i) = shape0 a"
  by (simp add: column_def)

lemma nth_column: "e < shape0 a \<Longrightarrow> column a i ! e = cell a e i"
  by (simp add: column_def)

lemma tensor_mul_same_length:
  "length xs = length ys \<Longrightarrow> tensor_mul xs ys = Inr (map (\<lambda>(x, y). x * y) (zip xs ys))"
  by (simp add: tensor_mul_def)

lemma tensor_mul_error: "tensor_mul xs ys = Inl e \<Longrightarrow> e = RuntimeError"
  by (simp add: tensor_mul_def split: if_splits)

lemma snd_set_enumerate [simp]: "snd ` set (enumerate n xs) = set xs"
  using arg_cong [OF map_snd_enumerate [of n xs], of set] by (simp only: set_map)

text \<open>The loop writes the two keys of each slice name it visits and no other key; it
  raises only when the product of the indicators and the labels does; with one label
  per example it runs to the end.\<close>

lemma slice_loop_frame:
  "k \<notin> ind_name b ` snd ` set ins \<Longrightarrow> k \<notin> pred_name b ` snd ` set ins \<Longrightarrow>
   snd (slice_loop conv b a labels ins Y) k = Y k"
proof (induction ins arbitrary: Y)
  case Nil
  then show ?case by simp
next
  case (Cons p ins)
  obtain i s where p: "p = (i, s)" by (cases p)
  from Cons.prems have k: "k \<noteq> ind_name b s" "k \<noteq> pred_name b s"
    and rest: "k \<notin> ind_name b ` snd ` set ins" "k \<notin> pred_name b ` snd ` set ins"
    by (auto simp: p)
  show ?case
  proof (cases "tensor_mul (column a i) labels")
    case (Inl e)
    then show ?thesis by (simp add: p)
  next
    case (Inr pl)
    then show ?thesis using Cons.IH [OF rest] k by (simp add: p)
  qed
qed

lemma slice_loop_error:
  "fst (slice_loop conv b a labels ins Y) = Some e \<Longrightarrow> e = RuntimeError"
proof (induction ins arbitrary: Y)
  case Nil
  then show ?case by simp
next
  case (Cons p ins)
  obtain i s where p: "p = (i, s)" by (cases p)
  show ?case
  proof (cases "tensor_mul (column a i) labels")
    case (Inl e')
    then show ?thesis using Cons.prems tensor_mul_error [OF Inl] by (simp add: p)
  next
    case (Inr pl)
    then show ?thesis using Cons.prems Cons.IH by (simp add: p)
  qed
qed

lemma slice_loop_ok:
  "length labels = shape0 a \<Longrightarrow> fst (slice_loop conv b a labels ins Y) = None"
  by (induction ins arbitrary: Y) (auto simp: tensor_mul_same_length Let_def)

lemma slice_loop_dom_mono: "dom Y \<subseteq> dom (snd (slice_loop conv b a labels ins Y))"
proof (induction ins arbitrary: Y)
  case Nil
  then show ?case by simp
next
  case (Cons p ins)
  obtain i s where p: "p = (i, s)" by (cases p)
  show ?case
  proof (cases "tensor_mul (column a i) labels")
    case (Inl e)
    then show ?thesis by (simp add: p)
  next
    case (Inr pl)
    have "dom Y \<subseteq> dom (Y(ind_name b s \<mapsto> conv (column a i), pred_name b s \<mapsto> pl))"
      by auto
    also have "\<dots> \<subseteq> dom (snd (slice_loop conv b a labels ins
                  (Y(ind_name b s \<mapsto> conv (column a i), pred_name b s \<mapsto> pl))))"
      by (rule Cons.IH)
    finally show ?thesis using Inr by (simp add: p)
  qed
qed

lemma slice_loop_dom:
  "fst (slice_loop conv b a labels ins Y) = None \<Longrightarrow>
   dom (snd (slice_loop conv b a labels ins Y)) =
     dom Y \<union> ind_name b ` snd ` set ins \<union> pred_name b ` snd ` set ins"
proof (induction ins arbitrary: Y)
  case Nil
  then show ?case by simp
next
  case (Cons p ins)
  obtain i s where p: "p = (i, s)" by (cases p)
  show ?case
  proof (cases "tensor_mul (column a i) labels")
    case (Inl e)
    then show ?thesis using Cons.prems by (simp add: p)
  next
    case (Inr pl)
    let ?Y = "Y(ind_name b s \<mapsto> conv (column a i), pred_name b s \<mapsto> pl)"
    have step: "slice_loop conv b a labels (p # ins) Y = slice_loop conv b a labels ins ?Y"
      using Inr by (simp add: p Let_def)
    from Cons.prems have "fst (slice_loop conv b a labels ins ?Y) = None"
      by (simp add: step)
    then have "dom (snd (slice_loop conv b a labels ins ?Y)) =
        dom ?Y \<union> ind_name b ` snd ` set ins \<union> pred_name b ` snd ` set ins"
      by (rule Cons.IH)
    then show ?thesis unfolding step by (auto simp: p)
  qed
qed

lemma slice_loop_pred:
  "length labels = shape0 a \<Longrightarrow> distinct (map snd ins) \<Longrightarrow> (i, s) \<in> set ins \<Longrightarrow>
   snd (slice_loop conv b a labels ins Y) (pred_name b s) =
     Some (map (\<lambda>(x, y). x * y) (zip (column a i) labels))"
proof (induction ins arbitrary: Y)
  case Nil
  then show ?case by simp
next
  case (Cons p ins)
  obtain i0 s0 where p: "p = (i0, s0)" by (cases p)
  let ?Y = "Y(ind_name b s0 \<mapsto> conv (column a i0),
              pred_name b s0 \<mapsto> map (\<lambda>(x, y). x * y) (zip (column a i0) labels))"
  have step: "slice_loop conv b a labels (p # ins) Y = slice_loop conv b a labels ins ?Y"
    using Cons.prems(1) by (simp add: p tensor_mul_same_length Let_def)
  show ?case
  proof (cases "(i, s) = (i0, s0)")
    case True
    with Cons.prems(2) have "s \<notin> snd ` set ins" by (simp add: p)
    then have "pred_name b s \<notin> ind_name b ` snd ` set ins"
      and "pred_name b s \<notin> pred_name b ` snd ` set ins" by force+
    then have "snd (slice_loop conv b a labels ins ?Y) (pred_name b s) = ?Y (pred_name b s)"
      by (rule slice_loop_frame)
    then show ?thesis using True by (simp add: step)
  next
    case False
    with Cons.prems have "(i, s) \<in> set ins" "distinct (map snd ins)" by (auto simp: p)
    then show ?thesis using Cons.IH [OF Cons.prems(1)] by (simp add: step)
  qed
qed

lemma add_slice_labels_eq:
  "add_slice_labels conv h bt m r =
     (if shape1 (norm_labels h m r) \<noteq> length (norm_names h m r)
      then (Some AssertionError, fst (add_base_slice h m r))
      else case Y_dict h (name bt) of
             None \<Rightarrow> (Some KeyError, fst (add_base_slice h m r))
           | Some labels \<Rightarrow>
               (fst (slice_loop conv (name bt) (norm_labels h m r) labels
                       (enumerate 0 (norm_names h m r)) (Y_dict h)),
                (fst (add_base_slice h m r))
                  \<lparr>Y_dict := snd (slice_loop conv (name bt) (norm_labels h m r) labels
                       (enumerate 0 (norm_names h m r)) (Y_dict h))\<rparr>))"
  by (simp add: add_slice_labels_def norm_labels_def norm_names_def add_base_slice_def
        alloc_list_def Let_def split: option.splits prod.splits)

lemma add_slice_labels_lists:
  "lists (snd (add_slice_labels conv h bt m r)) =
     lists h @ (if ''base'' \<in> set (lists h ! r) then [] else [lists h ! r @ [''base'']])"
  by (simp add: add_slice_labels_eq add_base_slice_def alloc_list_def Let_def split: option.splits)

section \<open>Auxiliary facts: the loops of the Task Graph Expander\<close>

text \<open>One iteration of each loop, then the loops as a whole: the tasks and operations they
  append, the modules they allocate, and the entries they write into the pool of the
  base task.\<close>

lemma ind_loop_step:
  "ind_loop bt hop neck body (s # rest) (h, ts, ops) =
   ind_loop bt hop neck body rest
     (h\<lparr>modules := modules h @ [Linear neck 2],
        pools := (pools h)[module_pool bt :=
          (pools h ! module_pool bt)(ind_name (name bt) s @ ''_head'' \<mapsto> length (modules h))]\<rparr>,
      ts @ [Task (ind_name (name bt) s) (module_pool bt)
              (body @ [Operation (ind_name (name bt) s @ ''_head'') (inputs hop)]) f1_scorer],
      ops @ [Operation (ind_name (name bt) s @ ''_head'') (inputs hop)])"
  by (simp add: Let_def alloc_module_def pool_set_def)

lemma pred_loop_step:
  "pred_loop bt hop neck body shared (s # rest) (h, ts, ops) =
   pred_loop bt hop neck body shared rest
     (h\<lparr>modules := modules h @ [Linear neck neck],
        pools := (pools h)[module_pool bt :=
          (pools h ! module_pool bt)
            (pred_name (name bt) s @ ''_transform'' \<mapsto> length (modules h),
             pred_name (name bt) s @ ''_head'' \<mapsto> shared)]\<rparr>,
      ts @ [Task (pred_name (name bt) s) (module_pool bt)
              (body @ [Operation (pred_name (name bt) s @ ''_transform'') (inputs hop),
                       Operation (pred_name (name bt) s @ ''_head'')
                         [OpOutput (pred_name (name bt) s @ ''_transform'') 0]])
              (scorer bt)],
      ops @ [Operation (pred_name (name bt) s @ ''_transform'') (inputs hop),
             Operation (pred_name (name bt) s @ ''_head'')
               [OpOutput (pred_name (name bt) s @ ''_transform'') 0]])"
proof (cases "module_pool bt < length (pools h)")
  case True
  then show ?thesis
    by (simp add: Let_def alloc_module_def pool_set_def Operation_def)
next
  case False
  then have "length (pools h) \<le> module_pool bt" by simp
  then show ?thesis
    by (simp add: Let_def alloc_module_def pool_set_def Operation_def list_update_beyond)
qed

declare ind_loop.simps(2) [simp del] pred_loop.simps(2) [simp del]

lemma ind_loop_tasks:
  "fst (snd (ind_loop bt hop neck body names (h, ts, ops))) =
     ts @ map (\<lambda>s. Task (ind_name (name bt) s) (module_pool bt)
                 (body @ [Operation (ind_name (name bt) s @ ''_head'') (inputs hop)]) f1_scorer) names"
  by (induction names arbitrary: h ts ops) (simp_all add: ind_loop_step)

lemma ind_loop_ops:
  "snd (snd (ind_loop bt hop neck body names (h, ts, ops))) =
     ops @ map (\<lambda>s. Operation (ind_name (name bt) s @ ''_head'') (inputs hop)) names"
  by (induction names arbitrary: h ts ops) (simp_all add: ind_loop_step)

lemma ind_loop_heap:
  "lists (fst (ind_loop bt hop neck body names (h, ts, ops))) = lists h"
  "Y_dict (fst (ind_loop bt hop neck body names (h, ts, ops))) = Y_dict h"
  "modules (fst (ind_loop bt hop neck body names (h, ts, ops))) =
     modules h @ replicate (length names) (Linear neck 2)"
  "length (pools (fst (ind_loop bt hop neck body names (h, ts, ops)))) = length (pools h)"
  by (induction names arbitrary: h ts ops; simp add: ind_loop_step replicate_append_same)+

lemma ind_loop_other_pool:
  "q \<noteq> module_pool bt \<Longrightarrow>
   pools (fst (ind_loop bt hop neck body names (h, ts, ops))) ! q = pools h ! q"
  by (induction names arbitrary: h ts ops) (simp_all add: ind_loop_step)

lemma ind_loop_pool_frame:
  "k \<notin> (\<lambda>s. ind_name (name bt) s @ ''_head'') ` set names \<Longrightarrow>
   (pools (fst (ind_loop bt hop neck body names (h, ts, ops))) ! module_pool bt) k =
   (pools h ! module_pool bt) k"
proof (induction names arbitrary: h ts ops)
  case Nil
  then show ?case by simp
next
  case (Cons s names)
  then show ?case
    by (cases "module_pool bt < length (pools h)")
       (simp_all add: ind_loop_step list_update_beyond not_less)
qed

lemma ind_loop_pool_dom:
  "module_pool bt < length (pools h) \<Longrightarrow>
   dom (pools (fst (ind_loop bt hop neck body names (h, ts, ops))) ! module_pool bt) =
   dom (pools h ! module_pool bt) \<union> (\<lambda>s. ind_name (name bt) s @ ''_head'') ` set names"
  by (induction names arbitrary: h ts ops) (simp_all add: ind_loop_step)

lemma pred_loop_tasks:
  "fst (snd (pred_loop bt hop neck body shared names (h, ts, ops))) =
     ts @ map (\<lambda>s. Task (pred_name (name bt) s) (module_pool bt)
              (body @ [Operation (pred_name (name bt) s @ ''_transform'') (inputs hop),
                       Operation (pred_name (name bt) s @ ''_head'')
                         [OpOutput (pred_name (name bt) s @ ''_transform'') 0]])
              (scorer bt)) names"
  by (induction names arbitrary: h ts ops) (simp_all add: pred_loop_step)

lemma pred_loop_ops:
  "snd (snd (pred_loop bt hop neck body shared names (h, ts, ops))) =
     ops @ concat (map (\<lambda>s. [Operation (pred_name (name bt) s @ ''_transform'') (inputs hop),
             Operation (pred_name (name bt) s @ ''_head'')
               [OpOutput (pred_name (name bt) s @ ''_transform'') 0]]) names)"
  by (induction names arbitrary: h ts ops) (simp_all add: pred_loop_step)

lemma pred_loop_heap:
  "lists (fst (pred_loop bt hop neck body shared names (h, ts, ops))) = lists h"
  "Y_dict (fst (pred_loop bt hop neck body shared names (h, ts, ops))) = Y_dict h"
  "modules (fst (pred_loop bt hop neck body shared names (h, ts, ops))) =
     modules h @ replicate (length names) (Linear neck neck)"
  "length (pools (fst (pred_loop bt hop neck body shared names (h, ts, ops)))) = length (pools h)"
  by (induction names arbitrary: h ts ops; simp add: pred_loop_step replicate_append_same)+

lemma pred_loop_other_pool:
  "q \<noteq> module_pool bt \<Longrightarrow>
   pools (fst (pred_loop bt hop neck body shared names (h, ts, ops))) ! q = pools h ! q"
  by (induction names arbitrary: h ts ops) (simp_all add: pred_loop_step)

lemma pred_loop_pool_frame:
  "k \<notin> (\<lambda>s. pred_name (name bt) s @ ''_transform'') ` set names \<Longrightarrow>
   k \<notin> (\<lambda>s. pred_name (name bt) s @ ''_head'') ` set names \<Longrightarrow>
   (pools (fst (pred_loop bt hop neck body shared names (h, ts, ops))) ! module_pool bt) k =
   (pools h ! module_pool bt) k"
proof (induction names arbitrary: h ts ops)
  case Nil
  then show ?case by simp
next
  case (Cons s names)
  then show ?case
    by (cases "module_pool bt < length (pools h)")
       (simp_all add: pred_loop_step list_update_beyond not_less)
qed

lemma pred_loop_pool_dom:
  "module_pool bt < length (pools h) \<Longrightarrow>
   dom (pools (fst (pred_loop bt hop neck body shared names (h, ts, ops))) ! module_pool bt) =
   dom (pools h ! module_pool bt)
     \<union> (\<lambda>s. pred_name (name bt) s @ ''_transform'') ` set names
     \<union> (\<lambda>s. pred_name (name bt) s @ ''_head'') ` set names"
  by (induction names arbitrary: h ts ops) (auto simp: pred_loop_step)

lemma pred_head_neq_transform [simp]:
  "pred_name b s @ ''_head'' \<noteq> pred_name b s' @ ''_transform''"
proof
  assume "pred_name b s @ ''_head'' = pred_name b s' @ ''_transform''"
  then have "last (pred_name b s @ ''_head'') = last (pred_name b s' @ ''_transform'')"
    by (rule arg_cong)
  then show False by simp
qed

lemma pred_loop_shared_head:
  "module_pool bt < length (pools h) \<Longrightarrow>
   s \<in> set names \<or> (pools h ! module_pool bt) (pred_name (name bt) s @ ''_head'') = Some shared \<Longrightarrow>
   (pools (fst (pred_loop bt hop neck body shared names (h, ts, ops))) ! module_pool bt)
     (pred_name (name bt) s @ ''_head'') = Some shared"
proof (induction names arbitrary: h ts ops)
  case Nil
  then show ?case by simp
next
  case (Cons s0 names)
  show ?case
    unfolding pred_loop_step
    by (rule Cons.IH) (use Cons.prems in auto)
qed

lemma ind_loop_st:
  "fst (snd (ind_loop bt hop neck body names st)) =
     fst (snd st) @ map (\<lambda>s. Task (ind_name (name bt) s) (module_pool bt)
                 (body @ [Operation (ind_name (name bt) s @ ''_head'') (inputs hop)]) f1_scorer) names"
  "snd (snd (ind_loop bt hop neck body names st)) =
     snd (snd st) @ map (\<lambda>s. Operation (ind_name (name bt) s @ ''_head'') (inputs hop)) names"
  "lists (fst (ind_loop bt hop neck body names st)) = lists (fst st)"
  "Y_dict (fst (ind_loop bt hop neck body names st)) = Y_dict (fst st)"
  "modules (fst (ind_loop bt hop neck body names st)) =
     modules (fst st) @ replicate (length names) (Linear neck 2)"
  "length (pools (fst (ind_loop bt hop neck body names st))) = length (pools (fst st))"
  by (cases st; simp add: ind_loop_tasks ind_loop_ops ind_loop_heap)+

lemma pred_loop_st:
  "fst (snd (pred_loop bt hop neck body shared names st)) =
     fst (snd st) @ map (\<lambda>s. Task (pred_name (name bt) s) (module_pool bt)
              (body @ [Operation (pred_name (name bt) s @ ''_transform'') (inputs hop),
                       Operation (pred_name (name bt) s @ ''_head'')
                         [OpOutput (pred_name (name bt) s @ ''_transform'') 0]])
              (scorer bt)) names"
  "snd (snd (pred_loop bt hop neck body shared names st)) =
     snd (snd st) @ concat (map (\<lambda>s. [Operation (pred_name (name bt) s @ ''_transform'') (inputs hop),
             Operation (pred_name (name bt) s @ ''_head'')
               [OpOutput (pred_name (name bt) s @ ''_transform'') 0]]) names)"
  "lists (fst (pred_loop bt hop neck body shared names st)) = lists (fst st)"
  "Y_dict (fst (pred_loop bt hop neck body shared names st)) = Y_dict (fst st)"
  "modules (fst (pred_loop bt hop neck body shared names st)) =
     modules (fst st) @ replicate (length names) (Linear neck neck)"
  "length (pools (fst (pred_loop bt hop neck body shared names st))) = length (pools (fst st))"
  by (cases st; simp add: pred_loop_tasks pred_loop_ops pred_loop_heap)+

lemma ind_loop_pool_st:
  "q \<noteq> module_pool bt \<Longrightarrow>
     pools (fst (ind_loop bt hop neck body names st)) ! q = pools (fst st) ! q"
  "module_pool bt < length (pools (fst st)) \<Longrightarrow>
   dom (pools (fst (ind_loop bt hop neck body names st)) ! module_pool bt) =
   dom (pools (fst st) ! module_pool bt) \<union> (\<lambda>s. ind_name (name bt) s @ ''_head'') ` set names"
  by (cases st; simp add: ind_loop_other_pool ind_loop_pool_dom)+

lemma pred_loop_pool_st:
  "q \<noteq> module_pool bt \<Longrightarrow>
     pools (fst (pred_loop bt hop neck body shared names st)) ! q = pools (fst st) ! q"
  "module_pool bt < length (pools (fst st)) \<Longrightarrow>
   dom (pools (fst (pred_loop bt hop neck body shared names st)) ! module_pool bt) =
   dom (pools (fst st) ! module_pool bt)
     \<union> (\<lambda>s. pred_name (name bt) s @ ''_transform'') ` set names
     \<union> (\<lambda>s. pred_name (name bt) s @ ''_head'') ` set names"
  "module_pool bt < length (pools (fst st)) \<Longrightarrow> s \<in> set names \<Longrightarrow>
   (pools (fst (pred_loop bt hop neck body shared names st)) ! module_pool bt)
     (pred_name (name bt) s @ ''_head'') = Some shared"
  by (cases st; simp add: pred_loop_other_pool pred_loop_pool_dom pred_loop_shared_head)+

lemma master_step_eq:
  "master_step bt hm body st =
     (fst (snd st) @
        [Task (name bt) (length (pools (fst st)))
           (body @ snd (snd st) @
              [Operation (name bt @ ''_master_combiner'') [],
               Operation (name bt @ ''_master_head'') [OpOutput (name bt @ ''_master_combiner'') 0]])
           (scorer bt)],
      (fst st)\<lparr>modules := modules (fst st) @ [SliceCombinerModule],
               pools := pools (fst st) @
                 [Map.empty(name bt @ ''_master_combiner'' \<mapsto> length (modules (fst st)),
                            name bt @ ''_master_head'' \<mapsto> hm)]\<rparr>)"
  by (cases st) (simp add: master_step_def Let_def alloc_module_def alloc_pool_def Operation_def)

text \<open>The Expander on a base task with a non-empty flow whose last operation names a
  linear module of the pool, possibly inside a replication wrapper: the call returns, and
  these are the tasks it returns and the heap it leaves.\<close>

lemma convert_eq:
  assumes flow: "task_flow bt \<noteq> []"
    and lookup: "(pools h ! module_pool bt) (op_module_name (last (task_flow bt))) = Some hm0"
    and lin: "modules h ! unwrap h hm0 = Linear neck cardinality"
  shows "convert_to_slice_tasks h bt r =
    (let h1 = (if ''base'' \<notin> set (lists h ! r) then fst (alloc_list h (lists h ! r @ [''base''])) else h);
         hop = last (task_flow bt);
         body = butlast (task_flow bt);
         st1 = ind_loop bt hop neck body (expander_names h r)
                 (pool_del h1 (module_pool bt) (op_module_name hop), [], []);
         st2 = pred_loop bt hop neck body (length (modules (fst st1))) (expander_names h r)
                 (fst (alloc_module (fst st1) (Linear neck cardinality)), snd st1)
     in (Inr (fst (master_step bt (unwrap h hm0) body st2)),
         snd (master_step bt (unwrap h hm0) body st2)))"
proof (cases "''base'' \<in> set (lists h ! r)")
  case True
  then show ?thesis
    using flow lookup lin
    by (simp add: convert_to_slice_tasks_def expander_names_def Let_def alloc_module_def
          pool_del_def ind_loop_st pred_loop_st split_beta)
next
  case False
  have u: "unwrap (fst (alloc_list h xs)) x = unwrap h x" for xs x
    by (simp add: unwrap_def alloc_list_def)
  from False show ?thesis
    using flow lookup lin
    by (simp add: convert_to_slice_tasks_def expander_names_def Let_def alloc_module_def
          pool_del_def ind_loop_st pred_loop_st split_beta alloc_list_def u unwrap_def)
qed

lemma expander_heap1 [simp]:
  "modules (if c then fst (alloc_list h xs) else h) = modules h"
  "pools (if c then fst (alloc_list h xs) else h) = pools h"
  "Y_dict (if c then fst (alloc_list h xs) else h) = Y_dict h"
  by (simp_all add: alloc_list_def)

lemma pool_del_heap [simp]:
  "modules (pool_del h p k) = modules h"
  "lists (pool_del h p k) = lists h"
  "Y_dict (pool_del h p k) = Y_dict h"
  "length (pools (pool_del h p k)) = length (pools h)"
  "q \<noteq> p \<Longrightarrow> pools (pool_del h p k) ! q = pools h ! q"
  "p < length (pools h) \<Longrightarrow> pools (pool_del h p k) ! p = (pools h ! p)(k := None)"
  by (simp_all add: pool_del_def)

lemma alloc_module_heap [simp]:
  "modules (fst (alloc_module h m)) = modules h @ [m]"
  "lists (fst (alloc_module h m)) = lists h"
  "Y_dict (fst (alloc_module h m)) = Y_dict h"
  "pools (fst (alloc_module h m)) = pools h"
  by (simp_all add: alloc_module_def)

lemma convert_tasks:
  assumes flow: "task_flow bt \<noteq> []"
    and lookup: "(pools h ! module_pool bt) (op_module_name (last (task_flow bt))) = Some hm0"
    and lin: "modules h ! unwrap h hm0 = Linear neck cardinality"
  shows "fst (convert_to_slice_tasks h bt r) = Inr
    (map (\<lambda>s. Task (ind_name (name bt) s) (module_pool bt)
            (butlast (task_flow bt) @
               [Operation (ind_name (name bt) s @ ''_head'') (inputs (last (task_flow bt)))])
            f1_scorer) (expander_names h r)
     @ map (\<lambda>s. Task (pred_name (name bt) s) (module_pool bt)
              (butlast (task_flow bt) @
                 [Operation (pred_name (name bt) s @ ''_transform'') (inputs (last (task_flow bt))),
                  Operation (pred_name (name bt) s @ ''_head'')
                    [OpOutput (pred_name (name bt) s @ ''_transform'') 0]])
              (scorer bt)) (expander_names h r)
     @ [Task (name bt) (length (pools h))
          (butlast (task_flow bt)
           @ (map (\<lambda>s. Operation (ind_name (name bt) s @ ''_head'') (inputs (last (task_flow bt))))
                (expander_names h r)
              @ concat (map (\<lambda>s.
                  [Operation (pred_name (name bt) s @ ''_transform'') (inputs (last (task_flow bt))),
                   Operation (pred_name (name bt) s @ ''_head'')
                     [OpOutput (pred_name (name bt) s @ ''_transform'') 0]]) (expander_names h r)))
           @ [Operation (name bt @ ''_master_combiner'') [],
              Operation (name bt @ ''_master_head'') [OpOutput (name bt @ ''_master_combiner'') 0]])
          (scorer bt)])"
  by (simp add: convert_eq [OF flow lookup lin] Let_def master_step_eq ind_loop_st pred_loop_st)

lemma convert_heap:
  assumes flow: "task_flow bt \<noteq> []"
    and lookup: "(pools h ! module_pool bt) (op_module_name (last (task_flow bt))) = Some hm0"
    and lin: "modules h ! unwrap h hm0 = Linear neck cardinality"
  shows "modules (snd (convert_to_slice_tasks h bt r)) =
           modules h @ replicate (length (expander_names h r)) (Linear neck 2)
             @ [Linear neck cardinality]
             @ replicate (length (expander_names h r)) (Linear neck neck)
             @ [SliceCombinerModule]"
    and "Y_dict (snd (convert_to_slice_tasks h bt r)) = Y_dict h"
    and "length (pools (snd (convert_to_slice_tasks h bt r))) = Suc (length (pools h))"
    and "pools (snd (convert_to_slice_tasks h bt r)) ! length (pools h) =
           Map.empty(name bt @ ''_master_combiner'' \<mapsto>
                        length (modules h) + 2 * length (expander_names h r) + 1,
                     name bt @ ''_master_head'' \<mapsto> unwrap h hm0)"
  by (simp_all add: convert_eq [OF flow lookup lin] Let_def master_step_eq ind_loop_st pred_loop_st
        nth_append mult_2 add.assoc)

lemma convert_shared_pool:
  assumes flow: "task_flow bt \<noteq> []"
    and lookup: "(pools h ! module_pool bt) (op_module_name (last (task_flow bt))) = Some hm0"
    and lin: "modules h ! unwrap h hm0 = Linear neck cardinality"
    and valid: "module_pool bt < length (pools h)"
  shows "dom (pools (snd (convert_to_slice_tasks h bt r)) ! module_pool bt) =
           (dom (pools h ! module_pool bt) - {op_module_name (last (task_flow bt))})
           \<union> (\<lambda>s. ind_name (name bt) s @ ''_head'') ` set (expander_names h r)
           \<union> (\<lambda>s. pred_name (name bt) s @ ''_transform'') ` set (expander_names h r)
           \<union> (\<lambda>s. pred_name (name bt) s @ ''_head'') ` set (expander_names h r)"
    and "s \<in> set (expander_names h r) \<Longrightarrow>
         (pools (snd (convert_to_slice_tasks h bt r)) ! module_pool bt)
           (pred_name (name bt) s @ ''_head'') =
         Some (length (modules h) + length (expander_names h r))"
  using valid
  by (simp_all add: convert_eq [OF flow lookup lin] Let_def master_step_eq ind_loop_st pred_loop_st
        ind_loop_pool_st pred_loop_pool_st nth_append)

lemma convert_lists:
  "lists (snd (convert_to_slice_tasks h bt r)) =
     lists h @ (if ''base'' \<in> set (lists h ! r) then [] else [lists h ! r @ [''base'']])"
proof (cases "task_flow bt = []")
  case True
  then show ?thesis by (simp add: convert_to_slice_tasks_def alloc_list_def)
next
  case flow: False
  show ?thesis
  proof (cases "(pools h ! module_pool bt) (op_module_name (last (task_flow bt)))")
    case None
    then show ?thesis using flow by (simp add: convert_to_slice_tasks_def alloc_list_def)
  next
    case (Some hm0)
    show ?thesis
    proof (cases "modules h ! unwrap h hm0")
      case (Linear neck cardinality)
      show ?thesis
        by (simp add: convert_eq [OF flow Some Linear] Let_def master_step_eq ind_loop_st
              pred_loop_st alloc_list_def)
    next
      case (DataParallel m)
      then show ?thesis using flow Some
        by (simp add: convert_to_slice_tasks_def alloc_list_def unwrap_def)
    next
      case SliceCombinerModule
      then show ?thesis using flow Some
        by (simp add: convert_to_slice_tasks_def alloc_list_def unwrap_def)
    next
      case OtherModule
      then show ?thesis using flow Some
        by (simp add: convert_to_slice_tasks_def alloc_list_def unwrap_def)
    qed
  qed
qed

lemma length_concat_pairs: "length (concat (map (\<lambda>s. [f s, g s]) xs)) = 2 * length xs"
  by (induction xs) simp_all

lemma convert_tasks_nth:
  assumes flow: "task_flow bt \<noteq> []"
    and lookup: "(pools h ! module_pool bt) (op_module_name (last (task_flow bt))) = Some hm0"
    and lin: "modules h ! unwrap h hm0 = Linear neck cardinality"
  shows "\<exists>ts. fst (convert_to_slice_tasks h bt r) = Inr ts
     \<and> length ts = 2 * length (expander_names h r) + 1
     \<and> (\<forall>i < length (expander_names h r).
           ts ! i = Task (ind_name (name bt) (expander_names h r ! i)) (module_pool bt)
             (butlast (task_flow bt) @
               [Operation (ind_name (name bt) (expander_names h r ! i) @ ''_head'')
                  (inputs (last (task_flow bt)))])
             f1_scorer)
     \<and> (\<forall>i < length (expander_names h r).
           ts ! (length (expander_names h r) + i) =
             Task (pred_name (name bt) (expander_names h r ! i)) (module_pool bt)
               (butlast (task_flow bt) @
                 [Operation (pred_name (name bt) (expander_names h r ! i) @ ''_transform'')
                    (inputs (last (task_flow bt))),
                  Operation (pred_name (name bt) (expander_names h r ! i) @ ''_head'')
                    [OpOutput (pred_name (name bt) (expander_names h r ! i) @ ''_transform'') 0]])
               (scorer bt))
     \<and> module_pool (ts ! (2 * length (expander_names h r))) = length (pools h)
     \<and> name (ts ! (2 * length (expander_names h r))) = name bt
     \<and> last ts = ts ! (2 * length (expander_names h r))"
  by (rule exI, rule conjI, rule convert_tasks [OF flow lookup lin])
     (simp add: nth_append Task_def mult_2)

section \<open>Auxiliary facts: the example inputs\<close>

lemma ex_flow: "task_flow ex_task \<noteq> []"
  by (simp add: ex_task_def Task_def)

lemma ex_lookup:
  "(pools ex_heap ! module_pool ex_task) (op_module_name (last (task_flow ex_task))) = Some 1"
  by (simp add: ex_task_def Task_def Operation_def ex_heap_def)

lemma ex_lin: "modules ex_heap ! unwrap ex_heap 1 = Linear 8 3"
  by (simp add: ex_heap_def unwrap_def)

lemma ex_names: "expander_names ex_heap 0 = [''rare'', ''base'']"
  by (simp add: expander_names_def ex_heap_def)

lemma ex_lookup_wrapped:
  "(pools ex_heap_wrapped ! module_pool ex_task) (op_module_name (last (task_flow ex_task))) = Some 2"
  by (simp add: ex_task_def Task_def Operation_def ex_heap_wrapped_def)

lemma ex_lin_wrapped: "modules ex_heap_wrapped ! unwrap ex_heap_wrapped 2 = Linear 8 3"
  by (simp add: ex_heap_wrapped_def unwrap_def)

lemma ex_unwrap_wrapped: "unwrap ex_heap_wrapped 2 = 1"
  by (simp add: ex_heap_wrapped_def unwrap_def)

lemma ex_norm_names: "norm_names ex_heap ex_matrix 0 = [''rare'', ''base'']"
  by (simp add: norm_names_eq ex_heap_def)

section \<open>Properties of the Label Materializer\<close>

text \<open>
  \<^bold>\<open>C1.\<close> Let the membership matrix have one column per slice name, let the names be
  distinct, and let the label store hold one base label per example under the name of
  the base task. Then \<^verbatim>\<open>add_slice_labels\<close> returns without an exception and, for
  every normalized slice name (position \<open>i\<close>), the predictor label registered under
  \<^verbatim>\<open>{base}_slice:{s}_pred\<close> is the elementwise product of column \<open>i\<close> of the
  normalized matrix and the base labels: for every example it is 0 where the membership
  value is 0, and the base label where the membership value is 1.
\<close>

theorem pred_labels_are_products:
  assumes shape: "shape1 m = length (lists h ! r)"
    and labels: "Y_dict h (name bt) = Some labels"
    and len: "length labels = shape0 m"
    and dist: "distinct (lists h ! r)"
    and i: "i < length (norm_names h m r)"
  shows "fst (add_slice_labels conv h bt m r) = None
       \<and> Y_dict (snd (add_slice_labels conv h bt m r)) (pred_name (name bt) (norm_names h m r ! i)) =
           Some (map (\<lambda>e. cell (norm_labels h m r) e i * labels ! e) [0..<shape0 m])
       \<and> (\<forall>e < shape0 m.
            (cell (norm_labels h m r) e i = 0 \<longrightarrow>
               the (Y_dict (snd (add_slice_labels conv h bt m r))
                      (pred_name (name bt) (norm_names h m r ! i))) ! e = 0)
          \<and> (cell (norm_labels h m r) e i = 1 \<longrightarrow>
               the (Y_dict (snd (add_slice_labels conv h bt m r))
                      (pred_name (name bt) (norm_names h m r ! i))) ! e = labels ! e))"
proof -
  let ?M = "norm_labels h m r" and ?ns = "norm_names h m r"
  let ?loop = "slice_loop conv (name bt) ?M labels (enumerate 0 ?ns) (Y_dict h)"
  have agree: "shape1 ?M = length ?ns" using shape by (simp add: norm_shapes_agree)
  have len': "length labels = shape0 ?M" using len by (simp add: norm_labels_shape0)
  have res: "add_slice_labels conv h bt m r = (fst ?loop, (fst (add_base_slice h m r))\<lparr>Y_dict := snd ?loop\<rparr>)"
    using agree labels by (simp add: add_slice_labels_eq)
  have ok: "fst ?loop = None" using len' by (rule slice_loop_ok)
  have mem: "(i, ?ns ! i) \<in> set (enumerate 0 ?ns)" using i by (simp add: in_set_enumerate_eq)
  have "distinct (map snd (enumerate 0 ?ns))" using dist by (simp add: norm_names_distinct)
  with len' have "snd ?loop (pred_name (name bt) (?ns ! i)) =
      Some (map (\<lambda>(x, y). x * y) (zip (column ?M i) labels))"
    using mem by (rule slice_loop_pred)
  also have "map (\<lambda>(x, y). x * y) (zip (column ?M i) labels) =
      map (\<lambda>e. cell ?M e i * labels ! e) [0..<shape0 m]"
    using len by (intro nth_equalityI) (simp_all add: norm_labels_shape0 nth_column)
  finally have val: "Y_dict (snd (add_slice_labels conv h bt m r)) (pred_name (name bt) (?ns ! i)) =
      Some (map (\<lambda>e. cell ?M e i * labels ! e) [0..<shape0 m])"
    by (simp add: res)
  show ?thesis using ok val by (simp add: res)
qed

text \<open>On the example: slice \<^verbatim>\<open>rare\<close> with memberships 1, 0, 1 and base labels
  1, 2, 1 gives the predictor labels 1, 0, 1.\<close>

theorem pred_labels_are_products_witness:
  "shape1 ex_matrix = length (lists ex_heap ! 0)
 \<and> Y_dict ex_heap (name ex_task) = Some [1, 2, 1]
 \<and> length [1, 2, 1 :: int64] = shape0 ex_matrix
 \<and> distinct (lists ex_heap ! 0)
 \<and> 0 < length (norm_names ex_heap ex_matrix 0)
 \<and> fst (add_slice_labels ex_conv ex_heap ex_task ex_matrix 0) = None
 \<and> Y_dict (snd (add_slice_labels ex_conv ex_heap ex_task ex_matrix 0)) ''task_slice:rare_pred'' =
      Some [1, 0, 1]"
proof -
  have s: "shape1 ex_matrix = length (lists ex_heap ! 0)" by (simp add: ex_heap_def ex_matrix_def)
  have l: "Y_dict ex_heap (name ex_task) = Some [1, 2, 1]"
    by (simp add: ex_heap_def ex_task_def Task_def)
  have n: "length [1, 2, 1 :: int64] = shape0 ex_matrix" by (simp add: ex_matrix_def)
  have d: "distinct (lists ex_heap ! 0)" by (simp add: ex_heap_def)
  have i: "0 < length (norm_names ex_heap ex_matrix 0)" by (simp add: ex_norm_names)
  have c: "map (\<lambda>e. cell (norm_labels ex_heap ex_matrix 0) e 0 * [1, 2, 1 :: int64] ! e)
             [0..<shape0 ex_matrix] = [1, 0, 1]"
    by (simp add: norm_labels_cell ex_matrix_def ex_heap_def upt_rec)
  have k: "pred_name (name ex_task) (norm_names ex_heap ex_matrix 0 ! 0) = ''task_slice:rare_pred''"
    by (simp add: ex_norm_names pred_name_def ex_task_def Task_def)
  show ?thesis
    using s l n d i pred_labels_are_products [OF s l n d i, of ex_conv] by (simp add: c k)
qed

text \<open>
  \<^bold>\<open>C2.\<close> Base-slice normalization returns the caller's names followed by
  \<^verbatim>\<open>"base"\<close> when that name was absent, and the caller's names themselves otherwise:
  the name is never added to a list that has it. The number of occurrences of
  \<^verbatim>\<open>"base"\<close> in the result is one when it was absent and the number of occurrences in
  the input otherwise, hence exactly one for distinct names. When the matrix has one
  column per name, the length of the result is the column count plus one if
  \<^verbatim>\<open>"base"\<close> was absent and plus zero otherwise, and the normalized matrix has one
  column per normalized name.
\<close>

theorem base_slice_added_once:
  "norm_names h m r = lists h ! r @ (if ''base'' \<in> set (lists h ! r) then [] else [''base''])
 \<and> count_list (norm_names h m r) ''base'' =
      (if ''base'' \<in> set (lists h ! r) then count_list (lists h ! r) ''base'' else 1)
 \<and> (distinct (lists h ! r) \<longrightarrow> count_list (norm_names h m r) ''base'' = 1)
 \<and> (shape1 m = length (lists h ! r) \<longrightarrow>
      length (norm_names h m r) = shape1 m + (if ''base'' \<in> set (lists h ! r) then 0 else 1)
    \<and> shape1 (norm_labels h m r) = length (norm_names h m r))"
  by (simp add: norm_names_eq norm_labels_shape1 count_list_distinct count_list_0_iff)

text \<open>On the example: the single name \<^verbatim>\<open>rare\<close> and a matrix of one column.\<close>

theorem base_slice_added_once_witness:
  "distinct (lists ex_heap ! 0) \<and> shape1 ex_matrix = length (lists ex_heap ! 0)
 \<and> count_list (norm_names ex_heap ex_matrix 0) ''base'' = 1
 \<and> shape1 (norm_labels ex_heap ex_matrix 0) = length (norm_names ex_heap ex_matrix 0)"
proof -
  have d: "distinct (lists ex_heap ! 0)" by (simp add: ex_heap_def)
  have s: "shape1 ex_matrix = length (lists ex_heap ! 0)" by (simp add: ex_heap_def ex_matrix_def)
  show ?thesis
    using d s base_slice_added_once [of ex_heap ex_matrix 0] by blast
qed

text \<open>
  \<^bold>\<open>C8.\<close> \<^verbatim>\<open>add_slice_labels\<close> raises its assertion if and only if the column
  count of the normalized matrix differs from the number of normalized names. In that
  case the label store is left as it was: the check comes before every write. When the
  store holds one base label per example under the name of the base task, the call
  fails if and only if the counts differ, so no other failure remains. When the call
  succeeds, every column of the normalized matrix has its two entries in the store:
  none is dropped and none is invented.
\<close>

theorem assertion_iff_shape_mismatch:
  "(fst (add_slice_labels conv h bt m r) = Some AssertionError \<longleftrightarrow>
      shape1 (norm_labels h m r) \<noteq> length (norm_names h m r))
 \<and> (shape1 (norm_labels h m r) \<noteq> length (norm_names h m r) \<longrightarrow>
      Y_dict (snd (add_slice_labels conv h bt m r)) = Y_dict h)
 \<and> (Y_dict h (name bt) = Some labels \<and> length labels = shape0 m \<longrightarrow>
      (fst (add_slice_labels conv h bt m r) \<noteq> None \<longleftrightarrow>
         shape1 (norm_labels h m r) \<noteq> length (norm_names h m r)))
 \<and> (fst (add_slice_labels conv h bt m r) = None \<longrightarrow>
      (\<forall>i < shape1 (norm_labels h m r).
         ind_name (name bt) (norm_names h m r ! i) \<in> dom (Y_dict (snd (add_slice_labels conv h bt m r)))
       \<and> pred_name (name bt) (norm_names h m r ! i) \<in> dom (Y_dict (snd (add_slice_labels conv h bt m r)))))"
proof (intro conjI impI)
  show "fst (add_slice_labels conv h bt m r) = Some AssertionError \<longleftrightarrow>
      shape1 (norm_labels h m r) \<noteq> length (norm_names h m r)"
    by (auto simp: add_slice_labels_eq split: option.splits dest: slice_loop_error)
next
  assume "shape1 (norm_labels h m r) \<noteq> length (norm_names h m r)"
  then show "Y_dict (snd (add_slice_labels conv h bt m r)) = Y_dict h"
    by (simp add: add_slice_labels_eq add_base_slice_heap)
next
  assume "Y_dict h (name bt) = Some labels \<and> length labels = shape0 m"
  then show "fst (add_slice_labels conv h bt m r) \<noteq> None \<longleftrightarrow>
         shape1 (norm_labels h m r) \<noteq> length (norm_names h m r)"
    by (simp add: add_slice_labels_eq slice_loop_ok norm_labels_shape0)
next
  assume ok: "fst (add_slice_labels conv h bt m r) = None"
  show "\<forall>i < shape1 (norm_labels h m r).
         ind_name (name bt) (norm_names h m r ! i) \<in> dom (Y_dict (snd (add_slice_labels conv h bt m r)))
       \<and> pred_name (name bt) (norm_names h m r ! i) \<in> dom (Y_dict (snd (add_slice_labels conv h bt m r)))"
  proof (cases "shape1 (norm_labels h m r) \<noteq> length (norm_names h m r)")
    case True
    with ok show ?thesis by (simp add: add_slice_labels_eq)
  next
    case False
    show ?thesis
    proof (cases "Y_dict h (name bt)")
      case None
      with ok False show ?thesis by (simp add: add_slice_labels_eq)
    next
      case (Some labels)
      let ?loop = "slice_loop conv (name bt) (norm_labels h m r) labels
                     (enumerate 0 (norm_names h m r)) (Y_dict h)"
      from ok False Some have "fst ?loop = None" by (simp add: add_slice_labels_eq)
      then have "dom (snd ?loop) = dom (Y_dict h) \<union> ind_name (name bt) ` set (norm_names h m r)
                   \<union> pred_name (name bt) ` set (norm_names h m r)"
        by (simp add: slice_loop_dom)
      moreover have "Y_dict (snd (add_slice_labels conv h bt m r)) = snd ?loop"
        using False Some by (simp add: add_slice_labels_eq)
      ultimately show ?thesis using False by simp
    qed
  qed
qed

text \<open>On the example: a matrix of two columns with one name (two after normalization,
  three columns) raises and writes nothing; the matrix of one column succeeds.\<close>

theorem assertion_iff_shape_mismatch_witness:
  "shape1 (norm_labels ex_heap ex_matrix_wide 0) \<noteq> length (norm_names ex_heap ex_matrix_wide 0)
 \<and> fst (add_slice_labels ex_conv ex_heap ex_task ex_matrix_wide 0) = Some AssertionError
 \<and> Y_dict (snd (add_slice_labels ex_conv ex_heap ex_task ex_matrix_wide 0)) = Y_dict ex_heap
 \<and> Y_dict ex_heap (name ex_task) = Some [1, 2, 1] \<and> length [1, 2, 1 :: int64] = shape0 ex_matrix
 \<and> shape1 (norm_labels ex_heap ex_matrix 0) = length (norm_names ex_heap ex_matrix 0)
 \<and> fst (add_slice_labels ex_conv ex_heap ex_task ex_matrix 0) = None
 \<and> ind_name (name ex_task) (norm_names ex_heap ex_matrix 0 ! 1)
      \<in> dom (Y_dict (snd (add_slice_labels ex_conv ex_heap ex_task ex_matrix 0)))"
proof -
  have m: "shape1 (norm_labels ex_heap ex_matrix_wide 0) \<noteq> length (norm_names ex_heap ex_matrix_wide 0)"
    by (simp add: norm_labels_shape1 norm_names_eq ex_heap_def ex_matrix_wide_def)
  have l: "Y_dict ex_heap (name ex_task) = Some [1, 2, 1] \<and> length [1, 2, 1 :: int64] = shape0 ex_matrix"
    by (simp add: ex_heap_def ex_task_def Task_def ex_matrix_def)
  have a: "shape1 (norm_labels ex_heap ex_matrix 0) = length (norm_names ex_heap ex_matrix 0)"
    by (simp add: norm_labels_shape1 norm_names_eq ex_heap_def ex_matrix_def)
  have i: "1 < shape1 (norm_labels ex_heap ex_matrix 0)"
    by (simp add: norm_labels_shape1 ex_heap_def ex_matrix_def)
  show ?thesis
    using m l a i
      assertion_iff_shape_mismatch [of ex_conv ex_heap ex_task ex_matrix_wide 0 "[1, 2, 1]"]
      assertion_iff_shape_mismatch [of ex_conv ex_heap ex_task ex_matrix 0 "[1, 2, 1]"]
    by auto
qed

text \<open>
  \<^bold>\<open>C9.\<close> For every run of \<^verbatim>\<open>add_slice_labels\<close>, with or without an exception,
  every key of the label store other than \<^verbatim>\<open>{base}_slice:{s}_ind\<close> and
  \<^verbatim>\<open>{base}_slice:{s}_pred\<close> for a normalized slice name \<open>s\<close> keeps its entry; in
  particular the entry of the base task is undisturbed. No key is removed. After a run
  without exception the keys of the store are the keys it had and those two keys for
  every normalized slice name.
\<close>

theorem label_store_frame:
  "(\<forall>k. k \<notin> ind_name (name bt) ` set (norm_names h m r) \<union>
            pred_name (name bt) ` set (norm_names h m r) \<longrightarrow>
        Y_dict (snd (add_slice_labels conv h bt m r)) k = Y_dict h k)
 \<and> Y_dict (snd (add_slice_labels conv h bt m r)) (name bt) = Y_dict h (name bt)
 \<and> dom (Y_dict h) \<subseteq> dom (Y_dict (snd (add_slice_labels conv h bt m r)))
 \<and> (fst (add_slice_labels conv h bt m r) = None \<longrightarrow>
      dom (Y_dict (snd (add_slice_labels conv h bt m r))) =
        dom (Y_dict h) \<union> ind_name (name bt) ` set (norm_names h m r) \<union>
          pred_name (name bt) ` set (norm_names h m r))"
proof -
  let ?ns = "norm_names h m r"
  let ?keys = "ind_name (name bt) ` set ?ns \<union> pred_name (name bt) ` set ?ns"
  have frame: "Y_dict (snd (add_slice_labels conv h bt m r)) k = Y_dict h k" if "k \<notin> ?keys" for k
    using that
    by (auto simp: add_slice_labels_eq add_base_slice_heap slice_loop_frame split: option.splits)
  have "name bt \<notin> ?keys" by auto
  then have base: "Y_dict (snd (add_slice_labels conv h bt m r)) (name bt) = Y_dict h (name bt)"
    by (rule frame)
  have mono: "dom (Y_dict h) \<subseteq> dom (Y_dict (snd (add_slice_labels conv h bt m r)))"
    using slice_loop_dom_mono [of "Y_dict h" conv "name bt" "norm_labels h m r" _ "enumerate 0 (norm_names h m r)"]
    by (simp add: add_slice_labels_eq add_base_slice_heap split: option.splits)
  have full: "dom (Y_dict (snd (add_slice_labels conv h bt m r))) = dom (Y_dict h) \<union> ?keys"
    if "fst (add_slice_labels conv h bt m r) = None"
    using that
    by (simp add: add_slice_labels_eq slice_loop_dom Un_assoc split: option.splits if_splits)
  show ?thesis using frame base mono full by (simp add: Un_assoc)
qed

text \<open>On the example: an unrelated key stays absent, the base labels stay, and the store
  ends with five keys.\<close>

theorem label_store_frame_witness:
  "''other'' \<notin> ind_name (name ex_task) ` set (norm_names ex_heap ex_matrix 0) \<union>
             pred_name (name ex_task) ` set (norm_names ex_heap ex_matrix 0)
 \<and> Y_dict (snd (add_slice_labels ex_conv ex_heap ex_task ex_matrix 0)) ''other'' = Y_dict ex_heap ''other''
 \<and> Y_dict (snd (add_slice_labels ex_conv ex_heap ex_task ex_matrix 0)) (name ex_task) = Some [1, 2, 1]
 \<and> fst (add_slice_labels ex_conv ex_heap ex_task ex_matrix 0) = None
 \<and> dom (Y_dict (snd (add_slice_labels ex_conv ex_heap ex_task ex_matrix 0))) =
     {''task'', ''task_slice:rare_ind'', ''task_slice:base_ind'',
      ''task_slice:rare_pred'', ''task_slice:base_pred''}"
proof -
  have k: "''other'' \<notin> ind_name (name ex_task) ` set (norm_names ex_heap ex_matrix 0) \<union>
             pred_name (name ex_task) ` set (norm_names ex_heap ex_matrix 0)"
    by (simp add: ex_norm_names ind_name_def pred_name_def)
  have l: "Y_dict ex_heap (name ex_task) = Some [1, 2, 1]"
    by (simp add: ex_heap_def ex_task_def Task_def)
  have a: "shape1 (norm_labels ex_heap ex_matrix 0) = length (norm_names ex_heap ex_matrix 0)"
    by (simp add: norm_labels_shape1 norm_names_eq ex_heap_def ex_matrix_def)
  have "fst (slice_loop ex_conv (name ex_task) (norm_labels ex_heap ex_matrix 0) [1, 2, 1]
               (enumerate 0 (norm_names ex_heap ex_matrix 0)) (Y_dict ex_heap)) = None"
    by (rule slice_loop_ok) (simp add: norm_labels_shape0 ex_matrix_def)
  then have ok: "fst (add_slice_labels ex_conv ex_heap ex_task ex_matrix 0) = None"
    using a l by (simp add: add_slice_labels_eq)
  have d: "dom (Y_dict ex_heap) \<union> ind_name (name ex_task) ` set (norm_names ex_heap ex_matrix 0) \<union>
          pred_name (name ex_task) ` set (norm_names ex_heap ex_matrix 0) =
     {''task'', ''task_slice:rare_ind'', ''task_slice:base_ind'',
      ''task_slice:rare_pred'', ''task_slice:base_pred''}"
    unfolding ex_norm_names
    by (auto simp: ind_name_def pred_name_def ex_heap_def ex_task_def Task_def)
  show ?thesis
    using k l ok label_store_frame [of ex_task ex_heap ex_matrix 0 ex_conv]
    by (simp add: d)
qed

section \<open>Properties of the Task Graph Expander\<close>

text \<open>The theorems of this section are about calls that return a list of tasks: the flow
  of the base task is not empty and its last operation names a module of the pool that
  is linear, possibly inside a replication wrapper. Under these hypotheses each theorem
  shows that the call does return. \<open>N\<close> is the number of base-inclusive slice names and
  \<open>L\<close> the length of the flow of the base task.\<close>

text \<open>
  \<^bold>\<open>C4.\<close> \<^verbatim>\<open>convert_to_slice_tasks\<close> returns exactly \<open>2 * N + 1\<close> tasks: the
  \<open>N\<close> indicator tasks, then the \<open>N\<close> predictor tasks, then one master task named as
  the base task, each group in the order of the slice names. The last operation of each
  task is the head of that task.
\<close>

theorem expander_task_list:
  assumes flow: "task_flow bt \<noteq> []"
    and lookup: "(pools h ! module_pool bt) (op_module_name (last (task_flow bt))) = Some hm0"
    and lin: "modules h ! unwrap h hm0 = Linear neck cardinality"
  shows "\<exists>ts. fst (convert_to_slice_tasks h bt r) = Inr ts
     \<and> length ts = 2 * length (expander_names h r) + 1
     \<and> map name ts = map (ind_name (name bt)) (expander_names h r)
                      @ map (pred_name (name bt)) (expander_names h r) @ [name bt]
     \<and> map (\<lambda>t. op_module_name (last (task_flow t))) ts =
           map (\<lambda>s. ind_name (name bt) s @ ''_head'') (expander_names h r)
         @ map (\<lambda>s. pred_name (name bt) s @ ''_head'') (expander_names h r)
         @ [name bt @ ''_master_head'']"
  by (rule exI, rule conjI, rule convert_tasks [OF flow lookup lin])
     (simp add: Task_def Operation_def o_def)

text \<open>On the example: one slice \<^verbatim>\<open>rare\<close>, hence two names and five tasks.\<close>

theorem expander_task_list_witness:
  "task_flow ex_task \<noteq> []
 \<and> (pools ex_heap ! module_pool ex_task) (op_module_name (last (task_flow ex_task))) = Some 1
 \<and> modules ex_heap ! unwrap ex_heap 1 = Linear 8 3
 \<and> (\<exists>ts. fst (convert_to_slice_tasks ex_heap ex_task 0) = Inr ts
       \<and> length ts = 5
       \<and> map name ts = [''task_slice:rare_ind'', ''task_slice:base_ind'',
                        ''task_slice:rare_pred'', ''task_slice:base_pred'', ''task''])"
  using ex_flow ex_lookup ex_lin expander_task_list [OF ex_flow ex_lookup ex_lin, of 0]
  by (auto simp: ex_names ind_name_def pred_name_def ex_task_def Task_def)

text \<open>
  \<^bold>\<open>C3\<close> (amended). The flows of the indicator tasks have length \<open>(L - 1) + 1\<close>, the
  flows of the predictor tasks have length \<open>(L - 1) + 2\<close>, and the flow of the master
  task has length \<open>(L - 1) + 3 * N + 2\<close>: it holds the body, then one indicator
  operation and two predictor operations (transform and head) for each slice name, then
  the combiner and the master head.
\<close>

theorem expander_flow_lengths:
  assumes flow: "task_flow bt \<noteq> []"
    and lookup: "(pools h ! module_pool bt) (op_module_name (last (task_flow bt))) = Some hm0"
    and lin: "modules h ! unwrap h hm0 = Linear neck cardinality"
  shows "\<exists>ts. fst (convert_to_slice_tasks h bt r) = Inr ts
     \<and> map (\<lambda>t. length (task_flow t)) ts =
           replicate (length (expander_names h r)) ((length (task_flow bt) - 1) + 1)
         @ replicate (length (expander_names h r)) ((length (task_flow bt) - 1) + 2)
         @ [(length (task_flow bt) - 1) + 3 * length (expander_names h r) + 2]"
  by (rule exI, rule conjI, rule convert_tasks [OF flow lookup lin])
     (simp add: Task_def o_def length_concat_pairs map_replicate_const)

text \<open>On the example, \<open>L = 2\<close> and \<open>N = 2\<close>: the lengths are 2, 2, 3, 3 and 9.\<close>

theorem expander_flow_lengths_witness:
  "task_flow ex_task \<noteq> []
 \<and> (pools ex_heap ! module_pool ex_task) (op_module_name (last (task_flow ex_task))) = Some 1
 \<and> modules ex_heap ! unwrap ex_heap 1 = Linear 8 3
 \<and> (\<exists>ts. fst (convert_to_slice_tasks ex_heap ex_task 0) = Inr ts
       \<and> map (\<lambda>t. length (task_flow t)) ts = [2, 2, 3, 3, 9])"
  using ex_flow ex_lookup ex_lin expander_flow_lengths [OF ex_flow ex_lookup ex_lin, of 0]
  by (auto simp: ex_names ex_task_def Task_def eval_nat_numeral)

text \<open>The master flow of the example has nine operations, where the formula
  \<open>(L - 1) + 2 * N + 2\<close> gives seven.\<close>

theorem master_flow_length_counterexample:
  "length (task_flow (last (projr (fst (convert_to_slice_tasks ex_heap ex_task 0))))) = 9
 \<and> (length (task_flow ex_task) - 1) + 2 * length (expander_names ex_heap 0) + 2 = 7"
  by (simp add: convert_tasks [OF ex_flow ex_lookup ex_lin] ex_names)
     (simp add: Task_def ex_task_def)

text \<open>
  \<^bold>\<open>C5.\<close> The shared predictor head is one module, allocated once between the two
  loops (after the \<open>N\<close> indicator heads, so at reference \<open>length (modules h) + N\<close>):
  the pool of every predictor task maps the head name of that task to this same
  reference, the module there is linear with the dimensions of the base head, and the
  call allocates \<open>N\<close> indicator heads, this one module, \<open>N\<close> transforms and the
  combiner, and nothing else; so no second predictor head exists.
\<close>

theorem shared_pred_head:
  assumes flow: "task_flow bt \<noteq> []"
    and lookup: "(pools h ! module_pool bt) (op_module_name (last (task_flow bt))) = Some hm0"
    and lin: "modules h ! unwrap h hm0 = Linear neck cardinality"
    and valid: "module_pool bt < length (pools h)"
  shows "\<exists>ts. fst (convert_to_slice_tasks h bt r) = Inr ts
     \<and> (\<forall>i < length (expander_names h r).
          (pools (snd (convert_to_slice_tasks h bt r)) ! module_pool (ts ! (length (expander_names h r) + i)))
             (name (ts ! (length (expander_names h r) + i)) @ ''_head'') =
          Some (length (modules h) + length (expander_names h r)))
     \<and> modules (snd (convert_to_slice_tasks h bt r)) ! (length (modules h) + length (expander_names h r)) =
          Linear neck cardinality
     \<and> modules (snd (convert_to_slice_tasks h bt r)) =
          modules h @ replicate (length (expander_names h r)) (Linear neck 2)
            @ [Linear neck cardinality]
            @ replicate (length (expander_names h r)) (Linear neck neck)
            @ [SliceCombinerModule]"
proof -
  let ?N = "length (expander_names h r)"
  let ?R = "convert_to_slice_tasks h bt r"
  obtain ts where ts: "fst ?R = Inr ts"
    and preds: "\<And>i. i < ?N \<Longrightarrow> ts ! (?N + i) =
             Task (pred_name (name bt) (expander_names h r ! i)) (module_pool bt)
               (butlast (task_flow bt) @
                 [Operation (pred_name (name bt) (expander_names h r ! i) @ ''_transform'')
                    (inputs (last (task_flow bt))),
                  Operation (pred_name (name bt) (expander_names h r ! i) @ ''_head'')
                    [OpOutput (pred_name (name bt) (expander_names h r ! i) @ ''_transform'') 0]])
               (scorer bt)"
    using convert_tasks_nth [OF flow lookup lin, of r] by blast
  have mods: "modules (snd ?R) =
          modules h @ replicate ?N (Linear neck 2) @ [Linear neck cardinality]
            @ replicate ?N (Linear neck neck) @ [SliceCombinerModule]"
    by (rule convert_heap(1) [OF flow lookup lin])
  then have shared: "modules (snd ?R) ! (length (modules h) + ?N) = Linear neck cardinality"
    by (simp add: nth_append)
  have "(pools (snd ?R) ! module_pool (ts ! (?N + i))) (name (ts ! (?N + i)) @ ''_head'') =
          Some (length (modules h) + ?N)" if "i < ?N" for i
    using that convert_shared_pool(2) [OF flow lookup lin valid, of "expander_names h r ! i" r]
    by (simp add: preds Task_def)
  with ts mods shared show ?thesis by blast
qed

text \<open>On the example: both predictor tasks hold reference 4 under their head name, and
  the modules after the call are the two there were and the six allocated.\<close>

theorem shared_pred_head_witness:
  "task_flow ex_task \<noteq> []
 \<and> (pools ex_heap ! module_pool ex_task) (op_module_name (last (task_flow ex_task))) = Some 1
 \<and> modules ex_heap ! unwrap ex_heap 1 = Linear 8 3
 \<and> module_pool ex_task < length (pools ex_heap)
 \<and> (\<exists>ts. fst (convert_to_slice_tasks ex_heap ex_task 0) = Inr ts
       \<and> (pools (snd (convert_to_slice_tasks ex_heap ex_task 0)) ! module_pool (ts ! 2))
            (name (ts ! 2) @ ''_head'') = Some 4
       \<and> (pools (snd (convert_to_slice_tasks ex_heap ex_task 0)) ! module_pool (ts ! 3))
            (name (ts ! 3) @ ''_head'') = Some 4
       \<and> modules (snd (convert_to_slice_tasks ex_heap ex_task 0)) =
            [OtherModule, Linear 8 3, Linear 8 2, Linear 8 2, Linear 8 3,
             Linear 8 8, Linear 8 8, SliceCombinerModule])"
proof -
  have v: "module_pool ex_task < length (pools ex_heap)"
    by (simp add: ex_task_def Task_def ex_heap_def)
  have n: "length (expander_names ex_heap 0) = 2" by (simp add: ex_names)
  have m: "modules ex_heap = [OtherModule, Linear 8 3]" by (simp add: ex_heap_def)
  from shared_pred_head [OF ex_flow ex_lookup ex_lin v, of 0]
  obtain ts where ts: "fst (convert_to_slice_tasks ex_heap ex_task 0) = Inr ts"
    and sh: "\<forall>i<2. (pools (snd (convert_to_slice_tasks ex_heap ex_task 0)) ! module_pool (ts ! (2 + i)))
             (name (ts ! (2 + i)) @ ''_head'') = Some 4"
    and mods: "modules (snd (convert_to_slice_tasks ex_heap ex_task 0)) =
            [OtherModule, Linear 8 3, Linear 8 2, Linear 8 2, Linear 8 3,
             Linear 8 8, Linear 8 8, SliceCombinerModule]"
    unfolding n m by (auto simp: numeral_2_eq_2)
  have "(pools (snd (convert_to_slice_tasks ex_heap ex_task 0)) ! module_pool (ts ! 2))
             (name (ts ! 2) @ ''_head'') = Some 4"
    using sh [rule_format, of 0] by simp
  moreover have "(pools (snd (convert_to_slice_tasks ex_heap ex_task 0)) ! module_pool (ts ! 3))
             (name (ts ! 3) @ ''_head'') = Some 4"
    using sh [rule_format, of 1] by simp
  ultimately show ?thesis using ex_flow ex_lookup ex_lin v ts mods by auto
qed

text \<open>
  \<^bold>\<open>C6\<close> (amended). The pool of the master task is a new pool with exactly two
  entries, the combiner and the master head, and no body module. The combiner is the
  module allocated last. The master head is the original head module by reference, not a
  new module, in unwrapped form: when the pool of the base task held the head inside a
  replication wrapper, the entry is the wrapped module and the wrapper is dropped;
  otherwise it is the module the pool held. The module at that reference is unchanged.
\<close>

theorem master_pool_contents:
  assumes flow: "task_flow bt \<noteq> []"
    and lookup: "(pools h ! module_pool bt) (op_module_name (last (task_flow bt))) = Some hm0"
    and lin: "modules h ! unwrap h hm0 = Linear neck cardinality"
    and valid: "unwrap h hm0 < length (modules h)"
  shows "\<exists>ts. fst (convert_to_slice_tasks h bt r) = Inr ts
     \<and> module_pool (last ts) = length (pools h)
     \<and> dom (pools (snd (convert_to_slice_tasks h bt r)) ! module_pool (last ts)) =
          {name bt @ ''_master_combiner'', name bt @ ''_master_head''}
     \<and> card (dom (pools (snd (convert_to_slice_tasks h bt r)) ! module_pool (last ts))) = 2
     \<and> (pools (snd (convert_to_slice_tasks h bt r)) ! module_pool (last ts)) (name bt @ ''_master_head'') =
          Some (unwrap h hm0)
     \<and> unwrap h hm0 = (case modules h ! hm0 of DataParallel m \<Rightarrow> m | _ \<Rightarrow> hm0)
     \<and> modules (snd (convert_to_slice_tasks h bt r)) ! unwrap h hm0 = Linear neck cardinality
     \<and> (pools (snd (convert_to_slice_tasks h bt r)) ! module_pool (last ts)) (name bt @ ''_master_combiner'') =
          Some (length (modules h) + 2 * length (expander_names h r) + 1)
     \<and> modules (snd (convert_to_slice_tasks h bt r)) ! (length (modules h) + 2 * length (expander_names h r) + 1) =
          SliceCombinerModule"
proof -
  let ?N = "length (expander_names h r)"
  let ?R = "convert_to_slice_tasks h bt r"
  obtain ts where ts: "fst ?R = Inr ts" and mp: "module_pool (last ts) = length (pools h)"
    using convert_tasks_nth [OF flow lookup lin, of r] by auto
  have pool: "pools (snd ?R) ! length (pools h) =
           Map.empty(name bt @ ''_master_combiner'' \<mapsto> length (modules h) + 2 * ?N + 1,
                     name bt @ ''_master_head'' \<mapsto> unwrap h hm0)"
    by (rule convert_heap(4) [OF flow lookup lin])
  have mods: "modules (snd ?R) =
          modules h @ replicate ?N (Linear neck 2) @ [Linear neck cardinality]
            @ replicate ?N (Linear neck neck) @ [SliceCombinerModule]"
    by (rule convert_heap(1) [OF flow lookup lin])
  have ne: "name bt @ ''_master_combiner'' \<noteq> name bt @ ''_master_head''" by simp
  have d: "dom (pools (snd ?R) ! module_pool (last ts)) =
          {name bt @ ''_master_combiner'', name bt @ ''_master_head''}"
    unfolding mp pool by auto
  have c: "card (dom (pools (snd ?R) ! module_pool (last ts))) = 2"
    unfolding d using ne by simp
  have hd: "(pools (snd ?R) ! module_pool (last ts)) (name bt @ ''_master_head'') = Some (unwrap h hm0)"
    unfolding mp pool by simp
  have cb: "(pools (snd ?R) ! module_pool (last ts)) (name bt @ ''_master_combiner'') =
          Some (length (modules h) + 2 * ?N + 1)"
    unfolding mp pool using ne by simp
  have same: "modules (snd ?R) ! unwrap h hm0 = Linear neck cardinality"
    using valid lin by (simp add: mods nth_append)
  have comb: "modules (snd ?R) ! (length (modules h) + 2 * ?N + 1) = SliceCombinerModule"
    by (simp add: mods nth_append mult_2)
  have u: "unwrap h hm0 = (case modules h ! hm0 of DataParallel m \<Rightarrow> m | _ \<Rightarrow> hm0)"
    by (simp add: unwrap_def)
  from ts mp d c hd u same cb comb show ?thesis by blast
qed

text \<open>On the example with the wrapped head: the pool of the base task names module 2, a
  wrapper around module 1, and the master head is module 1.\<close>

theorem master_pool_contents_witness:
  "task_flow ex_task \<noteq> []
 \<and> (pools ex_heap_wrapped ! module_pool ex_task) (op_module_name (last (task_flow ex_task))) = Some 2
 \<and> modules ex_heap_wrapped ! unwrap ex_heap_wrapped 2 = Linear 8 3
 \<and> unwrap ex_heap_wrapped 2 < length (modules ex_heap_wrapped)
 \<and> (\<exists>ts. fst (convert_to_slice_tasks ex_heap_wrapped ex_task 0) = Inr ts
       \<and> dom (pools (snd (convert_to_slice_tasks ex_heap_wrapped ex_task 0)) ! module_pool (last ts)) =
            {''task_master_combiner'', ''task_master_head''}
       \<and> (pools (snd (convert_to_slice_tasks ex_heap_wrapped ex_task 0)) ! module_pool (last ts))
            ''task_master_head'' = Some 1)"
proof -
  have v: "unwrap ex_heap_wrapped 2 < length (modules ex_heap_wrapped)"
    by (simp add: ex_unwrap_wrapped) (simp add: ex_heap_wrapped_def)
  have n: "name ex_task = ''task''" by (simp add: ex_task_def Task_def)
  show ?thesis
    using ex_flow ex_lookup_wrapped ex_lin_wrapped v
      master_pool_contents [OF ex_flow ex_lookup_wrapped ex_lin_wrapped v, of 0]
    by (auto simp: n ex_unwrap_wrapped)
qed

text \<open>The wrapped form is not kept: the head of the base task is the wrapper at
  reference 2, the master pool holds reference 1.\<close>

theorem master_pool_wrapped_counterexample:
  "(pools ex_heap_wrapped ! module_pool ex_task) (op_module_name (last (task_flow ex_task))) = Some 2
 \<and> modules ex_heap_wrapped ! 2 = DataParallel 1
 \<and> (pools (snd (convert_to_slice_tasks ex_heap_wrapped ex_task 0)) !
       module_pool (last (projr (fst (convert_to_slice_tasks ex_heap_wrapped ex_task 0)))))
      ''task_master_head'' = Some 1"
proof -
  have p: "module_pool (last (projr (fst (convert_to_slice_tasks ex_heap_wrapped ex_task 0)))) = 1"
    by (simp add: convert_tasks [OF ex_flow ex_lookup_wrapped ex_lin_wrapped])
       (simp add: Task_def ex_heap_wrapped_def)
  have l: "length (pools ex_heap_wrapped) = 1" by (simp add: ex_heap_wrapped_def)
  have "(pools (snd (convert_to_slice_tasks ex_heap_wrapped ex_task 0)) ! 1) ''task_master_head'' = Some 1"
    using convert_heap(4) [OF ex_flow ex_lookup_wrapped ex_lin_wrapped, of 0]
    by (simp add: l ex_unwrap_wrapped ex_task_def Task_def)
  then show ?thesis
    using ex_lookup_wrapped by (simp add: p) (simp add: ex_heap_wrapped_def)
qed

text \<open>
  \<^bold>\<open>C7\<close> (amended). Every indicator task and every predictor task holds the
  reference of the pool of the base task, and after the call that one pool holds the
  entries it had, less the base head, with the heads of all indicator tasks and the
  transforms and heads of all predictor tasks: each task sees the modules inserted for
  the others. The master task holds a new pool object, different from the pool of the
  base task.
\<close>

theorem derived_tasks_share_pool:
  assumes flow: "task_flow bt \<noteq> []"
    and lookup: "(pools h ! module_pool bt) (op_module_name (last (task_flow bt))) = Some hm0"
    and lin: "modules h ! unwrap h hm0 = Linear neck cardinality"
    and valid: "module_pool bt < length (pools h)"
  shows "\<exists>ts. fst (convert_to_slice_tasks h bt r) = Inr ts
     \<and> (\<forall>i < 2 * length (expander_names h r). module_pool (ts ! i) = module_pool bt)
     \<and> module_pool (ts ! (2 * length (expander_names h r))) = length (pools h)
     \<and> module_pool (ts ! (2 * length (expander_names h r))) \<noteq> module_pool bt
     \<and> dom (pools (snd (convert_to_slice_tasks h bt r)) ! module_pool bt) =
           (dom (pools h ! module_pool bt) - {op_module_name (last (task_flow bt))})
           \<union> (\<lambda>s. ind_name (name bt) s @ ''_head'') ` set (expander_names h r)
           \<union> (\<lambda>s. pred_name (name bt) s @ ''_transform'') ` set (expander_names h r)
           \<union> (\<lambda>s. pred_name (name bt) s @ ''_head'') ` set (expander_names h r)"
proof -
  let ?N = "length (expander_names h r)"
  let ?R = "convert_to_slice_tasks h bt r"
  obtain ts where ts: "fst ?R = Inr ts"
    and inds: "\<forall>i < ?N. ts ! i = Task (ind_name (name bt) (expander_names h r ! i)) (module_pool bt)
             (butlast (task_flow bt) @
               [Operation (ind_name (name bt) (expander_names h r ! i) @ ''_head'')
                  (inputs (last (task_flow bt)))])
             f1_scorer"
    and preds: "\<forall>i < ?N. ts ! (?N + i) =
             Task (pred_name (name bt) (expander_names h r ! i)) (module_pool bt)
               (butlast (task_flow bt) @
                 [Operation (pred_name (name bt) (expander_names h r ! i) @ ''_transform'')
                    (inputs (last (task_flow bt))),
                  Operation (pred_name (name bt) (expander_names h r ! i) @ ''_head'')
                    [OpOutput (pred_name (name bt) (expander_names h r ! i) @ ''_transform'') 0]])
               (scorer bt)"
    and master: "module_pool (ts ! (2 * ?N)) = length (pools h)"
    using convert_tasks_nth [OF flow lookup lin, of r] by blast
  have shared: "module_pool (ts ! i) = module_pool bt" if "i < 2 * ?N" for i
  proof (cases "i < ?N")
    case True
    with inds show ?thesis by (simp add: Task_def)
  next
    case False
    with that have "i - ?N < ?N" and "i = ?N + (i - ?N)" by simp_all
    with preds show ?thesis by (metis Task_def task.select_convs(2))
  qed
  have fresh: "module_pool (ts ! (2 * ?N)) \<noteq> module_pool bt"
    using valid master by simp
  from ts shared master fresh convert_shared_pool(1) [OF flow lookup lin valid, of r]
  show ?thesis by blast
qed

text \<open>On the example: the first and the fourth task hold pool 0, the master task holds
  pool 1, and pool 0 holds the transform of the last predictor task.\<close>

theorem derived_tasks_share_pool_witness:
  "task_flow ex_task \<noteq> []
 \<and> (pools ex_heap ! module_pool ex_task) (op_module_name (last (task_flow ex_task))) = Some 1
 \<and> modules ex_heap ! unwrap ex_heap 1 = Linear 8 3
 \<and> module_pool ex_task < length (pools ex_heap)
 \<and> (\<exists>ts. fst (convert_to_slice_tasks ex_heap ex_task 0) = Inr ts
       \<and> module_pool (ts ! 0) = 0 \<and> module_pool (ts ! 3) = 0 \<and> module_pool (ts ! 4) = 1
       \<and> ''task_slice:base_pred_transform''
            \<in> dom (pools (snd (convert_to_slice_tasks ex_heap ex_task 0)) ! 0))"
proof -
  have v: "module_pool ex_task < length (pools ex_heap)"
    by (simp add: ex_task_def Task_def ex_heap_def)
  have n: "length (expander_names ex_heap 0) = 2" by (simp add: ex_names)
  have p: "module_pool ex_task = 0" by (simp add: ex_task_def Task_def)
  have l: "length (pools ex_heap) = 1" by (simp add: ex_heap_def)
  from derived_tasks_share_pool [OF ex_flow ex_lookup ex_lin v, of 0]
  obtain ts where ts: "fst (convert_to_slice_tasks ex_heap ex_task 0) = Inr ts"
    and sh: "\<forall>i<4. module_pool (ts ! i) = 0"
    and ms: "module_pool (ts ! 4) = 1"
    and dm: "dom (pools (snd (convert_to_slice_tasks ex_heap ex_task 0)) ! 0) =
           (dom (pools ex_heap ! 0) - {op_module_name (last (task_flow ex_task))})
           \<union> (\<lambda>s. ind_name (name ex_task) s @ ''_head'') ` set (expander_names ex_heap 0)
           \<union> (\<lambda>s. pred_name (name ex_task) s @ ''_transform'') ` set (expander_names ex_heap 0)
           \<union> (\<lambda>s. pred_name (name ex_task) s @ ''_head'') ` set (expander_names ex_heap 0)"
    unfolding n p l by auto
  have "''task_slice:base_pred_transform''
            \<in> dom (pools (snd (convert_to_slice_tasks ex_heap ex_task 0)) ! 0)"
    unfolding dm by (simp add: ex_names pred_name_def ex_task_def Task_def)
  moreover from sh have "module_pool (ts ! 0) = 0" "module_pool (ts ! 3) = 0" by simp_all
  ultimately show ?thesis using ex_flow ex_lookup ex_lin v ts ms by auto
qed

text \<open>The master task of the example does not hold the pool of the base task.\<close>

theorem master_pool_not_shared_counterexample:
  "module_pool (last (projr (fst (convert_to_slice_tasks ex_heap ex_task 0)))) = 1
 \<and> module_pool ex_task = 0"
  by (simp add: convert_tasks [OF ex_flow ex_lookup ex_lin])
     (simp add: Task_def ex_heap_def ex_task_def)

section \<open>The caller's list of slice names\<close>

text \<open>
  \<^bold>\<open>C10.\<close> Neither \<^verbatim>\<open>add_slice_labels\<close> nor \<^verbatim>\<open>convert_to_slice_tasks\<close>
  writes into a list object that exists before the call: after either call the table of
  lists is the table before it, followed by one new list (the caller's names with
  \<^verbatim>\<open>"base"\<close> appended) when \<^verbatim>\<open>"base"\<close> was absent; so every list that
  existed, the caller's among them, has the same elements in the same order. This holds
  whether or not the call raises.
\<close>

theorem caller_names_unchanged:
  "lists (snd (add_slice_labels conv h bt m r)) =
     lists h @ (if ''base'' \<in> set (lists h ! r) then [] else [lists h ! r @ [''base'']])
 \<and> lists (snd (convert_to_slice_tasks h bt r)) =
     lists h @ (if ''base'' \<in> set (lists h ! r) then [] else [lists h ! r @ [''base'']])
 \<and> (\<forall>q < length (lists h).
       lists (snd (add_slice_labels conv h bt m r)) ! q = lists h ! q
     \<and> lists (snd (convert_to_slice_tasks h bt r)) ! q = lists h ! q)"
  by (simp add: add_slice_labels_lists convert_lists nth_append)

text \<open>On the example: the caller's list is still the single name \<^verbatim>\<open>rare\<close>, and the
  list with \<^verbatim>\<open>base\<close> is a second object.\<close>

theorem caller_names_unchanged_witness:
  "(0::nat) < length (lists ex_heap)
 \<and> lists (snd (add_slice_labels ex_conv ex_heap ex_task ex_matrix 0)) ! 0 = [''rare'']
 \<and> lists (snd (convert_to_slice_tasks ex_heap ex_task 0)) ! 0 = [''rare'']
 \<and> lists (snd (convert_to_slice_tasks ex_heap ex_task 0)) = [[''rare''], [''rare'', ''base'']]"
proof -
  have v: "(0::nat) < length (lists ex_heap)" by (simp add: ex_heap_def)
  have l: "lists ex_heap = [[''rare'']]" by (simp add: ex_heap_def)
  show ?thesis
    using v caller_names_unchanged [of ex_conv ex_heap ex_task ex_matrix 0]
    by (simp add: l)
qed

end
